theory Spec2Isabelle
  imports Main "HOL-Library.Word" "HOL-Library.Signed_Division" "HOL-Library.Multiset"
begin

unbundle bit_operations_syntax

section \<open>The u-blox binary protocol driver (src/main/io/gps_ublox.c)\<close>

text \<open>
  The driver keeps its state in file-level variables and in overlapping byte buffers.
  The embedding below passes that state explicitly.  Unsigned C integers of width w are
  \<open>w word\<close>; signed ones are \<open>w word\<close> read through \<open>sint\<close>, with C's truncating
  division written \<open>sdiv\<close>.  A pointer into a byte buffer is a memory function
  \<open>nat \<Rightarrow> 8 word\<close> together with an offset.
\<close>

type_synonym u8 = "8 word"
type_synonym u16 = "16 word"
type_synonym u32 = "32 word"
type_synonym bytes = "nat \<Rightarrow> 8 word"

subsection \<open>Constants of the protocol\<close>

definition MAX_UBLOX_PAYLOAD_SIZE :: nat where "MAX_UBLOX_PAYLOAD_SIZE = 256"

definition PREAMBLE1 :: u8 where "PREAMBLE1 = 0xB5"
definition PREAMBLE2 :: u8 where "PREAMBLE2 = 0x62"
definition CLASS_NAV :: u8 where "CLASS_NAV = 0x01"
definition CLASS_ACK :: u8 where "CLASS_ACK = 0x05"
definition CLASS_CFG :: u8 where "CLASS_CFG = 0x06"
definition CLASS_MON :: u8 where "CLASS_MON = 0x0A"
definition MSG_VER :: u8 where "MSG_VER = 0x04"
definition MSG_ACK_NACK :: u8 where "MSG_ACK_NACK = 0x00"
definition MSG_ACK_ACK :: u8 where "MSG_ACK_ACK = 0x01"
definition MSG_POSLLH :: u8 where "MSG_POSLLH = 0x2"
definition MSG_STATUS :: u8 where "MSG_STATUS = 0x3"
definition MSG_SOL :: u8 where "MSG_SOL = 0x6"
definition MSG_PVT :: u8 where "MSG_PVT = 0x7"
definition MSG_VELNED :: u8 where "MSG_VELNED = 0x12"
definition MSG_TIMEUTC :: u8 where "MSG_TIMEUTC = 0x21"
definition MSG_CFG_GNSS :: u8 where "MSG_CFG_GNSS = 0x3e"

lemmas ubx_protocol_bytes =
  PREAMBLE1_def PREAMBLE2_def CLASS_NAV_def CLASS_ACK_def CLASS_CFG_def CLASS_MON_def
  MSG_VER_def MSG_ACK_NACK_def MSG_ACK_ACK_def MSG_POSLLH_def MSG_STATUS_def MSG_SOL_def
  MSG_PVT_def MSG_VELNED_def MSG_TIMEUTC_def MSG_CFG_GNSS_def

subsection \<open>Checksum engine\<close>

text \<open>
  \<open>_update_checksum(data, len, ck_a, ck_b)\<close>: \<open>len\<close> is a \<open>uint8_t\<close> and the loop is
  \<open>while (len--)\<close>, so it runs \<open>unat len\<close> times; \<open>data\<close> is the memory read, \<open>p\<close>
  the offset the pointer has reached.
\<close>

function update_checksum :: "bytes \<Rightarrow> nat \<Rightarrow> u8 \<Rightarrow> u8 \<times> u8 \<Rightarrow> u8 \<times> u8" where
  "update_checksum data p len (ck_a, ck_b) =
     (if len = 0 then (ck_a, ck_b)
      else let ck_a' = ck_a + data p; ck_b' = ck_b + ck_a'
           in update_checksum data (Suc p) (len - 1) (ck_a', ck_b'))"
  by pat_completeness auto
termination
  by (relation "measure (\<lambda>(data, p, len, acc). unat len)") (auto simp: unat_minus_one unat_gt_0)

declare update_checksum.simps [simp del]

text \<open>
  The contract in the specification's words, on natural numbers: for every byte in order,
  \<open>a := (a + byte) mod 256\<close> and then \<open>b := (b + a) mod 256\<close>.
\<close>

fun checksum_spec :: "nat list \<Rightarrow> nat \<times> nat \<Rightarrow> nat \<times> nat" where
  "checksum_spec [] (a, b) = (a, b)"
| "checksum_spec (x # xs) (a, b) =
     (let a' = (a + x) mod 256; b' = (b + a') mod 256 in checksum_spec xs (a', b'))"

text \<open>The bytes of the range \<open>data[p .. p + n)\<close>, in wire order.\<close>

definition byte_range :: "bytes \<Rightarrow> nat \<Rightarrow> nat \<Rightarrow> u8 list" where
  "byte_range data p n = map data [p ..< p + n]"

text \<open>A byte list laid out in memory from offset 0 (bytes past its end read as 0).\<close>

definition mem_of :: "u8 list \<Rightarrow> bytes" where
  "mem_of xs = (\<lambda>i. if i < length xs then xs ! i else 0)"


subsection \<open>Reading C values out of a byte buffer\<close>

text \<open>
  The receive buffer \<open>_buffer\<close> is a union of the payload structs with \<open>bytes[256]\<close>: the
  decoder writes bytes, the mapper reads struct fields.  The target is little-endian and
  every field of the payload structs lies at its natural alignment, so a field is the
  little-endian value of the bytes at its offset.
\<close>

definition rd_u16 :: "bytes \<Rightarrow> nat \<Rightarrow> u16" where
  "rd_u16 b i = ucast (b i) OR push_bit 8 (ucast (b (i + 1)))"

definition rd_u32 :: "bytes \<Rightarrow> nat \<Rightarrow> u32" where
  "rd_u32 b i = ucast (b i) OR push_bit 8 (ucast (b (i + 1)))
                OR push_bit 16 (ucast (b (i + 2))) OR push_bit 24 (ucast (b (i + 3)))"

text \<open>C's \<open>/\<close> on \<open>int32_t\<close>: the quotient is truncated towards zero.\<close>

definition sdiv32 :: "u32 \<Rightarrow> u32 \<Rightarrow> u32" where
  "sdiv32 a b = word_of_int (sint a sdiv sint b)"

subsection \<open>The navigation solution and the driver state\<close>

datatype gpsFixType_e = GPS_NO_FIX | GPS_FIX_2D | GPS_FIX_3D

datatype ubx_ack_state = UBX_ACK_WAITING | UBX_ACK_GOT_ACK | UBX_ACK_GOT_NAK

datatype sbasMode_e = SBAS_AUTO | SBAS_EGNOS | SBAS_WAAS | SBAS_MSAS | SBAS_GAGAN | SBAS_NONE

text \<open>
  Modelled from the spec: the declarations of \<open>gpsSol\<close>, \<open>gpsState\<close> and \<open>gpsStats\<close>
  (io/gps.h) are not part of the sources.  The records below hold the fields the driver
  assigns; each numeric field has the C type of the expression the driver stores into
  it (32 bits for the \<open>int32_t\<close>/\<open>uint32_t\<close> payload fields and their quotients), so a
  narrowing done by the store is modelled only where the source casts explicitly
  (\<open>groundCourse\<close>).  The counters are 32-bit and wrap.
\<close>

record dateTime_t =
  year :: u16
  month :: u8
  day :: u8
  hours :: u8
  minutes :: u8
  seconds :: u8
  millis :: u32

record gpsSolutionData_t =
  fixType :: gpsFixType_e
  llh_lon :: u32
  llh_lat :: u32
  llh_alt :: u32
  velNED_X :: u32
  velNED_Y :: u32
  velNED_Z :: u32
  groundSpeed :: u32
  groundCourse :: u16
  numSat :: u8
  eph :: u32
  epv :: u32
  hdop :: u32
  validVelNE :: bool
  validVelD :: bool
  validEPE :: bool
  validTime :: bool
  time :: dateTime_t

record gpsConfig_t =
  sbasMode :: sbasMode_e
  ubloxUseGalileo :: bool

text \<open>
  The driver state: the file-level variables (\<open>_ck_a\<close> ... \<open>capGalileo\<close>, with
  \<open>_class\<close> as \<open>msg_class\<close>), the two buffers, and what the driver touches of the data
  declared elsewhere (\<open>gpsSol\<close>, \<open>gpsState.hwVersion\<close>, \<open>gpsState.gpsConfig\<close>,
  \<open>gpsStats\<close>).  \<open>buffer\<close> and \<open>send_buffer\<close> are the memory at byte offsets from the
  start of \<open>_buffer\<close> and of \<open>send_buffer\<close>; the offsets from 256 on lie behind the
  receive buffer.  \<open>serial_tx\<close> is the bytes written to the port so far.
\<close>

record ubx_state =
  ck_a :: u8
  ck_b :: u8
  skip_packet :: bool
  step :: u8
  msg_id :: u8
  payload_length :: u16
  payload_counter :: u16
  next_fix_type :: gpsFixType_e
  msg_class :: u8
  ack_state :: ubx_ack_state
  ack_waiting_msg :: u8
  new_position :: bool
  new_speed :: bool
  capGalileo :: bool
  send_buffer :: bytes
  buffer :: bytes
  gpsSol :: gpsSolutionData_t
  hwVersion :: u32
  gpsConfig :: gpsConfig_t
  errors :: u32
  packetCount :: u32
  serial_tx :: "u8 list"

text \<open>
  \<open>gpsConstrainEPE\<close> and \<open>gpsConstrainHDOP\<close> are defined outside the sources; the
  mapper takes them as parameters.
\<close>

record gps_externals =
  gpsConstrainEPE :: "u32 \<Rightarrow> u32"
  gpsConstrainHDOP :: "u16 \<Rightarrow> u32"

text \<open>The file-level variables of the driver are zero-initialised.\<close>

definition initial :: "ubx_state \<Rightarrow> bool" where
  "initial s \<longleftrightarrow>
     ck_a s = 0 \<and> ck_b s = 0 \<and> \<not> skip_packet s \<and> step s = 0 \<and> msg_id s = 0
     \<and> payload_length s = 0 \<and> payload_counter s = 0 \<and> next_fix_type s = GPS_NO_FIX
     \<and> msg_class s = 0 \<and> ack_state s = UBX_ACK_WAITING \<and> ack_waiting_msg s = 0
     \<and> \<not> new_position s \<and> \<not> new_speed s \<and> \<not> capGalileo s
     \<and> send_buffer s = (\<lambda>i. 0) \<and> buffer s = (\<lambda>i. 0)"


subsection \<open>Command encoder and ack tracker\<close>

text \<open>
  The send buffer is a union of \<open>ubx_message\<close> with bytes: the header occupies the
  offsets 0..5 (preamble1, preamble2, msg_class, msg_id, length as two little-endian
  bytes), the payload starts at offset 6.

  \<open>sendConfigMessageUBLOX\<close>: the length handed to \<open>_update_checksum\<close> is
  \<open>length + 4\<close> converted to \<open>uint8_t\<close>; the two checksum bytes go to the offsets
  \<open>length + 6\<close> and \<open>length + 7\<close>, and \<open>length + 8\<close> bytes are written to the port.
\<close>

definition sendConfigMessageUBLOX :: "ubx_state \<Rightarrow> ubx_state" where
  "sendConfigMessageUBLOX s =
     (let sb1 = (send_buffer s)(0 := PREAMBLE1, 1 := PREAMBLE2);
          len = unat (rd_u16 sb1 4);
          (a, b) = update_checksum sb1 2 (of_nat (len + 4)) (0, 0);
          sb2 = sb1(len + 6 := a);
          sb3 = sb2(len + 7 := b)
      in s\<lparr>send_buffer := sb3,
            serial_tx := serial_tx s @ byte_range sb3 0 (len + 8),
            ack_waiting_msg := sb3 3,
            ack_state := UBX_ACK_WAITING\<rparr>)"

text \<open>
  A \<open>ubx_gnss_element_t\<close> block at offset \<open>blk\<close>: gnssId +0, resTrkCh +1, maxTrkCh +2,
  reserved1 +3, enabled +4, undefined0 +5, sigCfgMask +6, undefined1 +7.  The functions
  return the number of blocks they filled in.
\<close>

definition GNSSID_SBAS :: u8 where "GNSSID_SBAS = 1"
definition GNSSID_GALILEO :: u8 where "GNSSID_GALILEO = 2"

definition configureGNSS_SBAS :: "gpsConfig_t \<Rightarrow> bytes \<Rightarrow> nat \<Rightarrow> bytes \<times> nat" where
  "configureGNSS_SBAS cfg sb blk =
     (let sb1 = sb(blk := GNSSID_SBAS, blk + 2 := 3, blk + 6 := 1)
      in if sbasMode cfg = SBAS_NONE
         then (sb1(blk + 4 := 0, blk + 1 := 0), 1)
         else (sb1(blk + 4 := 1, blk + 1 := 1), 1))"

definition configureGNSS_GALILEO :: "bool \<Rightarrow> gpsConfig_t \<Rightarrow> bytes \<Rightarrow> nat \<Rightarrow> bytes \<times> nat" where
  "configureGNSS_GALILEO cap cfg sb blk =
     (if \<not> cap then (sb, 0)
      else let sb1 = sb(blk := GNSSID_GALILEO, blk + 2 := 8, blk + 6 := 1)
           in if ubloxUseGalileo cfg
              then (sb1(blk + 4 := 1, blk + 1 := 4), 1)
              else (sb1(blk + 4 := 0, blk + 1 := 0), 1))"

text \<open>
  \<open>configureGNSS\<close>: the message header of the payload (msgVer, numTrkChHw, numTrkChUse,
  numConfigBlocks) is at the offsets 6..9, \<open>config[k]\<close> at \<open>10 + 8 * k\<close>; the length is
  \<open>sizeof(ubx_gnss_msg_t) + sizeof(ubx_gnss_element_t) * blocksUsed = 4 + 8 * blocksUsed\<close>.
\<close>

definition configureGNSS :: "ubx_state \<Rightarrow> ubx_state" where
  "configureGNSS s =
     (let sb0 = (send_buffer s)(2 := CLASS_CFG, 3 := MSG_CFG_GNSS, 6 := 0, 7 := 0, 8 := 32);
          blocksUsed = 0;
          (sb1, n1) = configureGNSS_SBAS (gpsConfig s) sb0 (10 + 8 * blocksUsed);
          blocksUsed = blocksUsed + n1;
          (sb2, n2) = configureGNSS_GALILEO (capGalileo s) (gpsConfig s) sb1 (10 + 8 * blocksUsed);
          blocksUsed = blocksUsed + n2;
          len = 4 + 8 * blocksUsed;
          sb3 = sb2(9 := of_nat blocksUsed, 4 := of_nat len, 5 := of_nat (len div 256))
      in sendConfigMessageUBLOX (s\<lparr>send_buffer := sb3\<rparr>))"

text \<open>
  The end of the \<open>gpsConfigure\<close> protothread, after the wait of the SBAS step:
  \<open>if (gpsState.hwVersion >= 80000) { ...; configureGNSS(); ptWaitTimeout(...); }\<close>.
  The function is what that branch does to the driver state and the port (the wait
  itself only reads \<open>_ack_state\<close> and the clock).
\<close>

definition gpsConfigure_GNSS :: "ubx_state \<Rightarrow> ubx_state" where
  "gpsConfigure_GNSS s = (if hwVersion s \<ge> 80000 then configureGNSS s else s)"

subsection \<open>Capability detector\<close>

definition UBX_HW_VERSION_UNKNOWN :: u32 where "UBX_HW_VERSION_UNKNOWN = 0"
definition UBX_HW_VERSION_UBLOX5 :: u32 where "UBX_HW_VERSION_UBLOX5 = 500"
definition UBX_HW_VERSION_UBLOX6 :: u32 where "UBX_HW_VERSION_UBLOX6 = 600"
definition UBX_HW_VERSION_UBLOX7 :: u32 where "UBX_HW_VERSION_UBLOX7 = 700"
definition UBX_HW_VERSION_UBLOX8 :: u32 where "UBX_HW_VERSION_UBLOX8 = 800"
definition UBX_HW_VERSION_UBLOX9 :: u32 where "UBX_HW_VERSION_UBLOX9 = 900"
definition UBX_HW_VERSION_UBLOX10 :: u32 where "UBX_HW_VERSION_UBLOX10 = 1000"

lemmas ubx_hw_versions =
  UBX_HW_VERSION_UNKNOWN_def UBX_HW_VERSION_UBLOX5_def UBX_HW_VERSION_UBLOX6_def
  UBX_HW_VERSION_UBLOX7_def UBX_HW_VERSION_UBLOX8_def UBX_HW_VERSION_UBLOX9_def
  UBX_HW_VERSION_UBLOX10_def

text \<open>The bytes of a string literal (without its terminating NUL).\<close>

definition c_str :: "string \<Rightarrow> u8 list" where
  "c_str cs = map (\<lambda>c. of_nat (of_char c)) cs"

text \<open>
  \<open>strncmp(s1, s2, n)\<close> of the C library, with \<open>s1\<close> a pointer into memory and \<open>s2\<close> a
  string literal, whose terminating NUL is the end of the list: at most \<open>n\<close> characters
  are compared, and the comparison stops after a NUL.  The result is 0, or the difference
  of the first two characters that differ (as \<open>unsigned char\<close>).
\<close>

fun strncmp :: "bytes \<Rightarrow> nat \<Rightarrow> u8 list \<Rightarrow> nat \<Rightarrow> int" where
  "strncmp mem p lit 0 = 0"
| "strncmp mem p lit (Suc n) =
     (let c1 = mem p; c2 = (case lit of [] \<Rightarrow> 0 | c # cs \<Rightarrow> c)
      in if c1 \<noteq> c2 then uint c1 - uint c2
         else if c1 = 0 then 0
         else strncmp mem (Suc p) (tl lit) n)"

definition gpsDecodeHardwareVersion :: "bytes \<Rightarrow> nat \<Rightarrow> nat \<Rightarrow> u32" where
  "gpsDecodeHardwareVersion szBuf p nBufSize =
     (if strncmp szBuf p (c_str ''00040005'') nBufSize = 0 then UBX_HW_VERSION_UBLOX5
      else if strncmp szBuf p (c_str ''00040007'') nBufSize = 0 then UBX_HW_VERSION_UBLOX6
      else if strncmp szBuf p (c_str ''00070000'') nBufSize = 0 then UBX_HW_VERSION_UBLOX7
      else if strncmp szBuf p (c_str ''00080000'') nBufSize = 0 then UBX_HW_VERSION_UBLOX8
      else if strncmp szBuf p (c_str ''00190000'') nBufSize = 0 then UBX_HW_VERSION_UBLOX9
      else if strncmp szBuf p (c_str ''000A0000'') nBufSize = 0 then UBX_HW_VERSION_UBLOX10
      else UBX_HW_VERSION_UNKNOWN)"

text \<open>
  The table of the specification: exact match of the version string against the known
  strings, no match is unknown.
\<close>

definition hw_version_table :: "(string \<times> u32) list" where
  "hw_version_table =
     [(''00040005'', 500), (''00040007'', 600), (''00070000'', 700),
      (''00080000'', 800), (''00190000'', 900), (''000A0000'', 1000)]"

definition decodeHardwareVersion_spec :: "u8 list \<Rightarrow> u32" where
  "decodeHardwareVersion_spec str =
     (case map_of (map (\<lambda>(k, v). (c_str k, v)) hw_version_table) str of
        Some v \<Rightarrow> v | None \<Rightarrow> 0)"

text \<open>
  Modelled from the spec: \<open>strnstr\<close> is not part of the sources; the specification has
  each 30-byte block scanned for the marker substring.  As the library function of that
  name does, \<open>strnstr(s, find, slen)\<close> looks at no more than \<open>slen\<close> characters and
  at none after a NUL; the driver only tests the result against NULL.
\<close>

fun has_infix :: "'a list \<Rightarrow> 'a list \<Rightarrow> bool" where
  "has_infix f [] = (f = [])"
| "has_infix f (x # xs) = (take (length f) (x # xs) = f \<or> has_infix f xs)"

definition strnstr_found :: "bytes \<Rightarrow> nat \<Rightarrow> u8 list \<Rightarrow> nat \<Rightarrow> bool" where
  "strnstr_found mem p f slen = has_infix f (takeWhile (\<lambda>c. c \<noteq> 0) (byte_range mem p slen))"

text \<open>
  The loop \<open>for (int j = 40; j < _payload_length; j += 30)\<close> of the version-info case,
  which sets \<open>capGalileo\<close> at the first extension block that contains "GAL".
\<close>

function scanGalileo :: "bytes \<Rightarrow> nat \<Rightarrow> nat \<Rightarrow> bool \<Rightarrow> bool" where
  "scanGalileo buf len j cap =
     (if j < len
      then (if strnstr_found buf j (c_str ''GAL'') 30 then True
            else scanGalileo buf len (j + 30) cap)
      else cap)"
  by pat_completeness auto
termination
  by (relation "measure (\<lambda>(buf, len, j, cap). len - j)") auto


subsection \<open>Solution mapper\<close>

definition FIX_2D :: u8 where "FIX_2D = 2"
definition FIX_3D :: u8 where "FIX_3D = 3"
definition NAV_STATUS_FIX_VALID :: u8 where "NAV_STATUS_FIX_VALID = 1"

definition gpsMapFixType :: "bool \<Rightarrow> u8 \<Rightarrow> gpsFixType_e" where
  "gpsMapFixType fixValid ubloxFixType =
     (if fixValid \<and> ubloxFixType = FIX_2D then GPS_FIX_2D
      else if fixValid \<and> ubloxFixType = FIX_3D then GPS_FIX_3D
      else GPS_NO_FIX)"

text \<open>\<open>UBX_VALID_GPS_DATE(valid) && UBX_VALID_GPS_TIME(valid)\<close>: bit 0 and bit 1.\<close>

definition UBX_VALID_GPS_DATE :: "u8 \<Rightarrow> bool" where
  "UBX_VALID_GPS_DATE valid \<longleftrightarrow> valid AND push_bit 0 1 \<noteq> 0"

definition UBX_VALID_GPS_TIME :: "u8 \<Rightarrow> bool" where
  "UBX_VALID_GPS_TIME valid \<longleftrightarrow> valid AND push_bit 1 1 \<noteq> 0"

definition UBX_VALID_GPS_DATE_TIME :: "u8 \<Rightarrow> bool" where
  "UBX_VALID_GPS_DATE_TIME valid \<longleftrightarrow> UBX_VALID_GPS_DATE valid \<and> UBX_VALID_GPS_TIME valid"

text \<open>
  The cases of the \<open>switch (_msg_id)\<close> of \<open>gpsParceFrameUBLOX\<close>, one definition per case
  label.  The field offsets are those of the payload structs:
  \<^item> \<open>ubx_nav_posllh\<close>: longitude 4, latitude 8, altitude_msl 16, horizontal_accuracy 20,
    vertical_accuracy 24;
  \<^item> \<open>ubx_nav_status\<close>: fix_type 4, fix_status 5;
  \<^item> \<open>ubx_nav_solution\<close>: fix_type 10, fix_status 11, position_DOP 44, satellites 47;
  \<^item> \<open>ubx_nav_velned\<close>: ned_north 4, ned_east 8, ned_down 12, speed_2d 20, heading_2d 24;
  \<^item> \<open>ubx_nav_timeutc\<close>: nano 8, year 12, month 14, day 15, hour 16, min 17, sec 18, valid 19;
  \<^item> \<open>ubx_nav_pvt\<close>: year 4, month 6, day 7, hour 8, min 9, sec 10, valid 11, nano 16,
    fix_type 20, fix_status 21, satellites 23, longitude 24, latitude 28, altitude_msl 36,
    horizontal_accuracy 40, vertical_accuracy 44, ned_north 48, ned_east 52, ned_down 56,
    speed_2d 60, heading_2d 64, position_DOP 76;
  \<^item> \<open>ubx_mon_ver\<close>: swVersion 0..29, hwVersion 30..39;
  \<^item> \<open>ubx_ack_ack\<close>: class 0, msg 1.
\<close>

definition case_MSG_POSLLH :: "gps_externals \<Rightarrow> ubx_state \<Rightarrow> ubx_state" where
  "case_MSG_POSLLH ext s =
     (let b = buffer s;
          sol = (gpsSol s)\<lparr>llh_lon := rd_u32 b 4,
                           llh_lat := rd_u32 b 8,
                           llh_alt := sdiv32 (rd_u32 b 16) 10,
                           eph := gpsConstrainEPE ext (rd_u32 b 20 div 10),
                           epv := gpsConstrainEPE ext (rd_u32 b 24 div 10),
                           validEPE := True\<rparr>;
          sol' = (if next_fix_type s \<noteq> GPS_NO_FIX then sol\<lparr>fixType := next_fix_type s\<rparr> else sol)
      in s\<lparr>gpsSol := sol', new_position := True\<rparr>)"

definition case_MSG_STATUS :: "ubx_state \<Rightarrow> ubx_state" where
  "case_MSG_STATUS s =
     (let b = buffer s;
          nft = gpsMapFixType (b 5 AND NAV_STATUS_FIX_VALID \<noteq> 0) (b 4);
          s1 = s\<lparr>next_fix_type := nft\<rparr>
      in if nft = GPS_NO_FIX then s1\<lparr>gpsSol := (gpsSol s1)\<lparr>fixType := GPS_NO_FIX\<rparr>\<rparr> else s1)"

definition case_MSG_SOL :: "gps_externals \<Rightarrow> ubx_state \<Rightarrow> ubx_state" where
  "case_MSG_SOL ext s =
     (let b = buffer s;
          nft = gpsMapFixType (b 11 AND NAV_STATUS_FIX_VALID \<noteq> 0) (b 10);
          s1 = s\<lparr>next_fix_type := nft\<rparr>;
          s2 = (if nft = GPS_NO_FIX then s1\<lparr>gpsSol := (gpsSol s1)\<lparr>fixType := GPS_NO_FIX\<rparr>\<rparr> else s1)
      in s2\<lparr>gpsSol := (gpsSol s2)\<lparr>numSat := b 47,
                                    hdop := gpsConstrainHDOP ext (rd_u16 b 44)\<rparr>\<rparr>)"

definition case_MSG_VELNED :: "ubx_state \<Rightarrow> ubx_state" where
  "case_MSG_VELNED s =
     (let b = buffer s
      in s\<lparr>gpsSol := (gpsSol s)\<lparr>groundSpeed := rd_u32 b 20,
                                  groundCourse := ucast (sdiv32 (rd_u32 b 24) 10000),
                                  velNED_X := rd_u32 b 4,
                                  velNED_Y := rd_u32 b 8,
                                  velNED_Z := rd_u32 b 12,
                                  validVelNE := True,
                                  validVelD := True\<rparr>,
            new_speed := True\<rparr>)"

definition case_MSG_TIMEUTC :: "ubx_state \<Rightarrow> ubx_state" where
  "case_MSG_TIMEUTC s =
     (let b = buffer s
      in if UBX_VALID_GPS_DATE_TIME (b 19)
         then s\<lparr>gpsSol := (gpsSol s)\<lparr>time := (time (gpsSol s))\<lparr>year := rd_u16 b 12,
                                         month := b 14,
                                         day := b 15,
                                         hours := b 16,
                                         minutes := b 17,
                                         seconds := b 18,
                                         millis := sdiv32 (rd_u32 b 8) (1000 * 1000)\<rparr>,
                                       validTime := True\<rparr>\<rparr>
         else s\<lparr>gpsSol := (gpsSol s)\<lparr>validTime := False\<rparr>\<rparr>)"

definition case_MSG_PVT :: "gps_externals \<Rightarrow> ubx_state \<Rightarrow> ubx_state" where
  "case_MSG_PVT ext s =
     (let b = buffer s;
          nft = gpsMapFixType (b 21 AND NAV_STATUS_FIX_VALID \<noteq> 0) (b 20);
          sol = (gpsSol s)\<lparr>fixType := nft,
                           llh_lon := rd_u32 b 24,
                           llh_lat := rd_u32 b 28,
                           llh_alt := sdiv32 (rd_u32 b 36) 10,
                           velNED_X := sdiv32 (rd_u32 b 48) 10,
                           velNED_Y := sdiv32 (rd_u32 b 52) 10,
                           velNED_Z := sdiv32 (rd_u32 b 56) 10,
                           groundSpeed := sdiv32 (rd_u32 b 60) 10,
                           groundCourse := ucast (sdiv32 (rd_u32 b 64) 10000),
                           numSat := b 23,
                           eph := gpsConstrainEPE ext (rd_u32 b 40 div 10),
                           epv := gpsConstrainEPE ext (rd_u32 b 44 div 10),
                           hdop := gpsConstrainHDOP ext (rd_u16 b 76),
                           validVelNE := True,
                           validVelD := True,
                           validEPE := True\<rparr>;
          sol' = (if UBX_VALID_GPS_DATE_TIME (b 11)
                  then sol\<lparr>time := (time sol)\<lparr>year := rd_u16 b 4,
                                              month := b 6,
                                              day := b 7,
                                              hours := b 8,
                                              minutes := b 9,
                                              seconds := b 10,
                                              millis := sdiv32 (rd_u32 b 16) (1000 * 1000)\<rparr>,
                            validTime := True\<rparr>
                  else sol\<lparr>validTime := False\<rparr>)
      in s\<lparr>next_fix_type := nft, gpsSol := sol', new_position := True, new_speed := True\<rparr>)"

text \<open>
  The version-info case.  \<open>swVersion[9] > '2'\<close> compares a \<open>char\<close>, which is unsigned on
  the ARM targets of the firmware.
\<close>

definition case_MSG_VER :: "ubx_state \<Rightarrow> ubx_state" where
  "case_MSG_VER s =
     (if msg_class s = CLASS_MON
      then let b = buffer s;
               s1 = s\<lparr>hwVersion := gpsDecodeHardwareVersion b 30 10\<rparr>
           in if hwVersion s1 \<ge> UBX_HW_VERSION_UBLOX8 \<and> b 9 > 0x32
              then s1\<lparr>capGalileo := scanGalileo b (unat (payload_length s1)) 40 (capGalileo s1)\<rparr>
              else s1
      else s)"

definition case_MSG_ACK_ACK :: "ubx_state \<Rightarrow> ubx_state" where
  "case_MSG_ACK_ACK s =
     (if ack_state s = UBX_ACK_WAITING \<and> buffer s 1 = ack_waiting_msg s
      then s\<lparr>ack_state := UBX_ACK_GOT_ACK\<rparr> else s)"

definition case_MSG_ACK_NACK :: "ubx_state \<Rightarrow> ubx_state" where
  "case_MSG_ACK_NACK s =
     (if ack_state s = UBX_ACK_WAITING \<and> buffer s 1 = ack_waiting_msg s
      then s\<lparr>ack_state := UBX_ACK_GOT_NAK\<rparr> else s)"

text \<open>
  The \<open>switch (_msg_id)\<close>: \<open>None\<close> is the \<open>default: return false\<close>, \<open>Some\<close> the state
  at the \<open>break\<close> of a case.
\<close>

definition ubx_switch :: "gps_externals \<Rightarrow> ubx_state \<Rightarrow> ubx_state option" where
  "ubx_switch ext s =
     (if msg_id s = MSG_POSLLH then Some (case_MSG_POSLLH ext s)
      else if msg_id s = MSG_STATUS then Some (case_MSG_STATUS s)
      else if msg_id s = MSG_SOL then Some (case_MSG_SOL ext s)
      else if msg_id s = MSG_VELNED then Some (case_MSG_VELNED s)
      else if msg_id s = MSG_TIMEUTC then Some (case_MSG_TIMEUTC s)
      else if msg_id s = MSG_PVT then Some (case_MSG_PVT ext s)
      else if msg_id s = MSG_VER then Some (case_MSG_VER s)
      else if msg_id s = MSG_ACK_ACK then Some (case_MSG_ACK_ACK s)
      else if msg_id s = MSG_ACK_NACK then Some (case_MSG_ACK_NACK s)
      else None)"

text \<open>
  \<open>gpsParceFrameUBLOX\<close>: after the switch, true is returned only when both latches are
  set, and both are cleared then.
\<close>

definition gpsParceFrameUBLOX :: "gps_externals \<Rightarrow> ubx_state \<Rightarrow> ubx_state \<times> bool" where
  "gpsParceFrameUBLOX ext s =
     (case ubx_switch ext s of
        None \<Rightarrow> (s, False)
      | Some s1 \<Rightarrow>
          if new_position s1 \<and> new_speed s1
          then (s1\<lparr>new_speed := False, new_position := False\<rparr>, True)
          else (s1, False))"

subsection \<open>Frame decoder\<close>

text \<open>
  \<open>gpsNewFrameUBLOX(data)\<close>: one call per received byte; the result is the new state
  and the value returned (\<open>parsed\<close>).  \<open>_step\<close> is a \<open>uint8_t\<close>; the switch has no
  default, so a step above 8 does nothing.
\<close>

definition gpsNewFrameUBLOX :: "gps_externals \<Rightarrow> u8 \<Rightarrow> ubx_state \<Rightarrow> ubx_state \<times> bool" where
  "gpsNewFrameUBLOX ext data s =
     (if step s = 0 then
        (if PREAMBLE1 = data then (s\<lparr>skip_packet := False, step := step s + 1\<rparr>, False)
         else (s, False))
      else if step s = 1 then
        (if PREAMBLE2 \<noteq> data then (s\<lparr>step := 0\<rparr>, False)
         else (s\<lparr>step := step s + 1\<rparr>, False))
      else if step s = 2 then
        (s\<lparr>step := step s + 1, msg_class := data, ck_a := data, ck_b := data\<rparr>, False)
      else if step s = 3 then
        (let a = ck_a s + data
         in (s\<lparr>step := step s + 1, ck_a := a, ck_b := ck_b s + a, msg_id := data\<rparr>, False))
      else if step s = 4 then
        (let a = ck_a s + data
         in (s\<lparr>step := step s + 1, ck_a := a, ck_b := ck_b s + a,
                payload_length := ucast data\<rparr>, False))
      else if step s = 5 then
        (let a = ck_a s + data;
             len = payload_length s OR push_bit 8 (ucast data);
             s1 = s\<lparr>step := step s + 1, ck_a := a, ck_b := ck_b s + a, payload_length := len\<rparr>
         in if unat len > MAX_UBLOX_PAYLOAD_SIZE
            then (s1\<lparr>errors := errors s1 + 1, step := 0\<rparr>, False)
            else let s2 = s1\<lparr>payload_counter := 0\<rparr>
                 in if len = 0 then (s2\<lparr>step := 7\<rparr>, False) else (s2, False))
      else if step s = 6 then
        (let a = ck_a s + data;
             s1 = s\<lparr>ck_a := a, ck_b := ck_b s + a\<rparr>;
             s2 = (if unat (payload_counter s1) < MAX_UBLOX_PAYLOAD_SIZE
                   then s1\<lparr>buffer := (buffer s1)(unat (payload_counter s1) := data)\<rparr>
                   else s1);
             s3 = (if uint (payload_counter s2) = uint (payload_length s2) - 1
                   then s2\<lparr>step := step s2 + 1\<rparr> else s2)
         in (s3\<lparr>payload_counter := payload_counter s3 + 1\<rparr>, False))
      else if step s = 7 then
        (let s1 = s\<lparr>step := step s + 1\<rparr>
         in if ck_a s1 \<noteq> data
            then (s1\<lparr>skip_packet := True, errors := errors s1 + 1, step := 0\<rparr>, False)
            else (s1, False))
      else if step s = 8 then
        (let s1 = s\<lparr>step := 0\<rparr>
         in if ck_b s1 \<noteq> data then (s1\<lparr>errors := errors s1 + 1\<rparr>, False)
            else let s2 = s1\<lparr>packetCount := packetCount s1 + 1\<rparr>
                 in if skip_packet s2 then (s2, False)
                    else gpsParceFrameUBLOX ext s2)
      else (s, False))"

text \<open>
  The receiver thread hands every byte read from the port to \<open>gpsNewFrameUBLOX\<close>, in
  order.  \<open>feed\<close> is the state after a byte stream, \<open>feed_parsed\<close> the values returned.
\<close>

fun feed :: "gps_externals \<Rightarrow> u8 list \<Rightarrow> ubx_state \<Rightarrow> ubx_state" where
  "feed ext [] s = s"
| "feed ext (d # ds) s = feed ext ds (fst (gpsNewFrameUBLOX ext d s))"

fun feed_parsed :: "gps_externals \<Rightarrow> u8 list \<Rightarrow> ubx_state \<Rightarrow> bool list" where
  "feed_parsed ext [] s = []"
| "feed_parsed ext (d # ds) s =
     snd (gpsNewFrameUBLOX ext d s) # feed_parsed ext ds (fst (gpsNewFrameUBLOX ext d s))"

text \<open>
  The ids of the frames the decoder hands to the mapper while it reads a byte stream:
  \<open>gpsParceFrameUBLOX\<close> is called exactly at step 8, when the byte equals \<open>_ck_b\<close> and
  \<open>_skip_packet\<close> is clear.
\<close>

fun dispatched :: "gps_externals \<Rightarrow> u8 list \<Rightarrow> ubx_state \<Rightarrow> u8 list" where
  "dispatched ext [] s = []"
| "dispatched ext (d # ds) s =
     (if step s = 8 \<and> ck_b s = d \<and> \<not> skip_packet s then [msg_id s] else [])
     @ dispatched ext ds (fst (gpsNewFrameUBLOX ext d s))"

text \<open>
  The states the driver can be in: the zero-initialised state, and from there any
  received byte and any command sent (whatever the configuration code has put into the
  send buffer before).
\<close>

inductive reachable :: "gps_externals \<Rightarrow> ubx_state \<Rightarrow> bool" for ext where
  reach_init: "initial s \<Longrightarrow> reachable ext s"
| reach_byte: "reachable ext s \<Longrightarrow> reachable ext (fst (gpsNewFrameUBLOX ext data s))"
| reach_send: "reachable ext s \<Longrightarrow> reachable ext (sendConfigMessageUBLOX (s\<lparr>send_buffer := sb\<rparr>))"


subsection \<open>Auxiliary notions for stating the properties\<close>

text \<open>
  The C string a reader bounded by \<open>n\<close> sees at \<open>mem + p\<close>: the bytes before the first
  NUL among the first \<open>n\<close>.
\<close>

definition c_string_at :: "bytes \<Rightarrow> nat \<Rightarrow> nat \<Rightarrow> u8 list" where
  "c_string_at mem p n = takeWhile (\<lambda>c. c \<noteq> 0) (byte_range mem p n)"

text \<open>
  An accepted frame as the mapper sees it: when the decoder calls \<open>gpsParceFrameUBLOX\<close>,
  the variables \<open>_class\<close>, \<open>_msg_id\<close> and \<open>_payload_length\<close> and the receive buffer hold
  the frame (the mapper reads no other variable of the decoder).
\<close>

record ubx_frame =
  f_class :: u8
  f_id :: u8
  f_length :: u16
  f_payload :: bytes

definition accept_frame :: "gps_externals \<Rightarrow> ubx_frame \<Rightarrow> ubx_state \<Rightarrow> ubx_state \<times> bool" where
  "accept_frame ext f s =
     gpsParceFrameUBLOX ext
       (s\<lparr>msg_class := f_class f, msg_id := f_id f, payload_length := f_length f,
          buffer := f_payload f\<rparr>)"

fun accept_frames :: "gps_externals \<Rightarrow> ubx_frame list \<Rightarrow> ubx_state \<Rightarrow> bool list" where
  "accept_frames ext [] s = []"
| "accept_frames ext (f # fs) s =
     snd (accept_frame ext f s) # accept_frames ext fs (fst (accept_frame ext f s))"

text \<open>
  The wire format of a frame, in the specification's words: the two sync bytes, class,
  id, the payload length as two little-endian bytes, the payload, and the two checksum
  bytes, the checksum being computed over class to end of payload by
  \<open>a := a + byte; b := b + a\<close> from \<open>(0, 0)\<close>.
\<close>

definition ck_step :: "u8 \<Rightarrow> u8 \<times> u8 \<Rightarrow> u8 \<times> u8" where
  "ck_step x = (\<lambda>(a, b). (a + x, b + (a + x)))"

definition wire_frame :: "u8 \<Rightarrow> u8 \<Rightarrow> u8 list \<Rightarrow> u8 list" where
  "wire_frame cls mid payload =
     (let body = [cls, mid, of_nat (length payload), of_nat (length payload div 256)] @ payload;
          ck = fold ck_step body (0, 0)
      in [PREAMBLE1, PREAMBLE2] @ body @ [fst ck, snd ck])"

text \<open>
  The state in which the decoder calls the mapper after it has read the frame
  \<open>wire_frame cls mid payload\<close> from step 0: the payload is in the receive buffer, and
  class, id, length, counter, checksums and the packet count are those of the frame.
\<close>

definition store_payload :: "u8 list \<Rightarrow> bytes \<Rightarrow> bytes" where
  "store_payload p buf = (\<lambda>j. if j < length p then p ! j else buf j)"

definition frame_accepted :: "u8 \<Rightarrow> u8 \<Rightarrow> u8 list \<Rightarrow> ubx_state \<Rightarrow> ubx_state" where
  "frame_accepted cls mid payload s =
     (let ck = fold ck_step ([cls, mid, of_nat (length payload), of_nat (length payload div 256)]
                             @ payload) (0, 0)
      in s\<lparr>skip_packet := False, step := 0, msg_class := cls, msg_id := mid,
           ck_a := fst ck, ck_b := snd ck,
           payload_length := of_nat (length payload),
           payload_counter := of_nat (length payload),
           buffer := store_payload payload (buffer s),
           packetCount := packetCount s + 1\<rparr>)"

text \<open>
  For running the model on concrete inputs: the zero-initialised driver with the data
  declared elsewhere (solution, configuration, counters) zero as well, and an instance
  of the external functions that does not clamp.
\<close>

definition ubx_zero :: ubx_state where
  "ubx_zero =
     \<lparr>ck_a = 0, ck_b = 0, skip_packet = False, step = 0, msg_id = 0, payload_length = 0,
      payload_counter = 0, next_fix_type = GPS_NO_FIX, msg_class = 0,
      ack_state = UBX_ACK_WAITING, ack_waiting_msg = 0, new_position = False,
      new_speed = False, capGalileo = False, send_buffer = (\<lambda>i. 0), buffer = (\<lambda>i. 0),
      gpsSol = \<lparr>fixType = GPS_NO_FIX, llh_lon = 0, llh_lat = 0, llh_alt = 0, velNED_X = 0,
                velNED_Y = 0, velNED_Z = 0, groundSpeed = 0, groundCourse = 0, numSat = 0,
                eph = 0, epv = 0, hdop = 0, validVelNE = False, validVelD = False,
                validEPE = False, validTime = False,
                time = \<lparr>year = 0, month = 0, day = 0, hours = 0, minutes = 0, seconds = 0,
                         millis = 0\<rparr>\<rparr>,
      hwVersion = 0, gpsConfig = \<lparr>sbasMode = SBAS_AUTO, ubloxUseGalileo = False\<rparr>,
      errors = 0, packetCount = 0, serial_tx = []\<rparr>"

definition ext_sample :: gps_externals where
  "ext_sample = \<lparr>gpsConstrainEPE = (\<lambda>e. e), gpsConstrainHDOP = ucast\<rparr>"

text \<open>Payloads of concrete frames, for running the mapper.\<close>

definition timeutc_payload :: "u8 \<Rightarrow> bytes" where
  "timeutc_payload valid =
     mem_of [0, 0, 0, 0, 0, 0, 0, 0, 0x15, 0xCD, 0x5B, 0x07, 0xE7, 0x07, 6, 15, 12, 30, 45, valid]"

definition pvt_velocity_payload :: bytes where
  "pvt_velocity_payload =
     (\<lambda>i. 0)(48 := 0xF1, 49 := 0xFF, 50 := 0xFF, 51 := 0xFF,
             52 := 0x19, 56 := 0xF6, 57 := 0xFF, 58 := 0xFF, 59 := 0xFF,
             60 := 0x7B, 64 := 0x40, 65 := 0x77, 66 := 0x1B)"

definition velned_payload :: bytes where
  "velned_payload =
     (\<lambda>i. 0)(4 := 0xF1, 5 := 0xFF, 6 := 0xFF, 7 := 0xFF, 20 := 0x7B,
             24 := 0x40, 25 := 0x77, 26 := 0x1B)"

text \<open>Concrete byte streams, for running the decoder.\<close>

definition ack_frame_bytes :: "u8 list" where
  "ack_frame_bytes = [0xB5, 0x62, 0x05, 0x01, 0x02, 0x00, 0x06, 0x24, 0x32, 0x5B]"

text \<open>
  A frame of class CFG (0x06) with id 0x02, the id of the position message in class NAV;
  its ten payload bytes have the shape of the protocol's CFG-INF message.
\<close>

definition cfg_inf_frame :: "u8 list" where
  "cfg_inf_frame =
     [0xB5, 0x62, 0x06, 0x02, 0x0A, 0x00,
      0x01, 0x00, 0x00, 0x00, 0x07, 0x07, 0x07, 0x07, 0x07, 0x07,
      0x3D, 0x83]"

text \<open>
  A velocity frame (class NAV, id 0x12) with its 36 payload bytes: north velocity -15,
  ground speed 123, heading 1800000.
\<close>

definition nav_velned_frame :: "u8 list" where
  "nav_velned_frame =
     [0xB5, 0x62, 0x01, 0x12, 0x24, 0x00,
      0x00, 0x00, 0x00, 0x00, 0xF1, 0xFF, 0xFF, 0xFF, 0x00, 0x00, 0x00, 0x00,
      0x00, 0x00, 0x00, 0x00, 0x00, 0x00, 0x00, 0x00, 0x7B, 0x00, 0x00, 0x00,
      0x40, 0x77, 0x1B, 0x00, 0x00, 0x00, 0x00, 0x00, 0x00, 0x00, 0x00, 0x00,
      0x72, 0xDF]"

section \<open>Properties\<close>

subsection \<open>Checksum engine\<close>

lemma byte_range_0: "byte_range data p 0 = []"
  by (simp add: byte_range_def)

lemma byte_range_Suc: "byte_range data p (Suc n) = data p # byte_range data (Suc p) n"
  unfolding byte_range_def by (simp add: upt_rec)

lemma update_checksum_fold:
  "update_checksum data p len acc =
     fold (\<lambda>x (a, b). (a + x, b + (a + x))) (byte_range data p (unat len)) acc"
proof (induction data p len acc rule: update_checksum.induct)
  case (1 data p len ck_a ck_b)
  show ?case
  proof (cases "len = 0")
    case True
    then show ?thesis by (simp add: byte_range_0 update_checksum.simps)
  next
    case False
    then have n: "unat len = Suc (unat (len - 1))"
      by (simp add: unat_minus_one unat_gt_0)
    have "update_checksum data p len (ck_a, ck_b) =
          update_checksum data (Suc p) (len - 1) (ck_a + data p, ck_b + (ck_a + data p))"
      using False by (subst update_checksum.simps) (simp add: Let_def)
    also have "\<dots> = fold (\<lambda>x (a, b). (a + x, b + (a + x)))
                       (byte_range data (Suc p) (unat (len - 1)))
                       (ck_a + data p, ck_b + (ck_a + data p))"
      using "1.IH" [OF False refl refl] .
    finally show ?thesis by (simp add: n byte_range_Suc)
  qed
qed

lemma checksum_spec_fold:
  "checksum_spec (map unat xs) (unat a, unat b) =
     map_prod unat unat (fold (\<lambda>x (a, b). (a + x, b + (a + x))) xs (a, b))"
  for xs :: "u8 list" and a b :: u8
proof (induction xs arbitrary: a b)
  case Nil
  then show ?case by simp
next
  case (Cons x xs)
  have a: "(unat a + unat x) mod 256 = unat (a + x)"
    by (simp add: unat_word_ariths)
  have b: "(unat b + unat (a + x)) mod 256 = unat (b + (a + x))"
    by (simp add: unat_word_ariths)
  show ?case by (simp add: Let_def a b Cons.IH)
qed

text \<open>
  C7.  For every byte range \<open>data[p .. p + len)\<close> and every accumulator pair,
  \<open>_update_checksum\<close> returns the pair obtained by \<open>a := a + byte; b := b + a\<close> (8-bit
  additions, that is modulo 256) once per byte in the order of the range; read as
  numbers, the result is the one the contract of the specification computes.  The
  function is pure: it returns the pair and nothing else.  The result depends on the
  order: two byte sequences that are permutations of each other give different pairs.
\<close>

theorem update_checksum_contract:
  "update_checksum data p len (a, b) =
     fold (\<lambda>x (a, b). (a + x, b + (a + x))) (byte_range data p (unat len)) (a, b)
   \<and> map_prod unat unat (update_checksum data p len (a, b)) =
     checksum_spec (map unat (byte_range data p (unat len))) (unat a, unat b)
   \<and> (\<exists>xs ys. mset xs = mset ys
        \<and> update_checksum (mem_of xs) 0 (of_nat (length xs)) (0, 0)
          \<noteq> update_checksum (mem_of ys) 0 (of_nat (length ys)) (0, 0))"
proof (intro conjI)
  show "update_checksum data p len (a, b) =
     fold (\<lambda>x (a, b). (a + x, b + (a + x))) (byte_range data p (unat len)) (a, b)"
    by (rule update_checksum_fold)
  show "map_prod unat unat (update_checksum data p len (a, b)) =
     checksum_spec (map unat (byte_range data p (unat len))) (unat a, unat b)"
    by (simp only: update_checksum_fold checksum_spec_fold)
  have m: "mset [1, 2 :: u8] = mset [2, 1]"
    by simp
  have d: "update_checksum (mem_of [1, 2]) 0 (of_nat (length [1, 2 :: u8])) (0, 0)
        \<noteq> update_checksum (mem_of [2, 1]) 0 (of_nat (length [2, 1 :: u8])) (0, 0)"
    by (simp add: update_checksum_fold byte_range_def mem_of_def upt_rec)
  from m d show "\<exists>xs ys. mset xs = mset ys
        \<and> update_checksum (mem_of xs) 0 (of_nat (length xs)) (0, 0)
          \<noteq> update_checksum (mem_of ys) 0 (of_nat (length ys)) (0, 0)"
    by blast
qed

theorem update_checksum_contract_witness:
  "update_checksum (mem_of [0x06, 0x3e, 0x0c, 0x00]) 0 4 (0, 0) = (0x50, 0xEA)
   \<and> checksum_spec [0x06, 0x3e, 0x0c, 0x00] (0, 0) = (0x50, 0xEA)"
proof -
  note t = update_checksum_contract [of "mem_of [0x06, 0x3e, 0x0c, 0x00]" 0 4 0 0]
  have u: "unat (4 :: u8) = 4"
    by simp
  have r: "byte_range (mem_of [0x06, 0x3e, 0x0c, 0x00]) 0 4 = [0x06, 0x3e, 0x0c, 0x00]"
    by (simp add: byte_range_def mem_of_def upt_rec)
  have e1: "update_checksum (mem_of [0x06, 0x3e, 0x0c, 0x00]) 0 4 (0, 0) = (0x50, 0xEA)"
    by (subst t [THEN conjunct1]) (simp add: r)
  have e2: "checksum_spec (map unat [0x06, 0x3e, 0x0c, 0x00 :: u8]) (unat (0 :: u8), unat (0 :: u8))
            = map_prod unat unat (0x50 :: u8, 0xEA :: u8)"
    using t [THEN conjunct2, THEN conjunct1] by (simp only: u r e1)
  from e1 e2 show ?thesis by simp
qed


subsection \<open>Capability detector: the hardware version string\<close>

lemma c_string_at_Suc:
  "c_string_at mem p (Suc n) = (if mem p = 0 then [] else mem p # c_string_at mem (Suc p) n)"
  by (simp add: c_string_at_def byte_range_Suc)

text \<open>
  Against a literal that is shorter than the bound, \<open>strncmp\<close> returns 0 exactly when the
  C string in memory is the literal.
\<close>

lemma strncmp_eq_0_iff:
  "0 \<notin> set lit \<Longrightarrow> length lit < n \<Longrightarrow>
   (strncmp mem p lit n = 0) = (c_string_at mem p n = lit)"
proof (induction n arbitrary: p lit)
  case 0
  then show ?case by simp
next
  case (Suc n)
  show ?case
  proof (cases lit)
    case Nil
    then show ?thesis
      by (simp add: c_string_at_Suc Let_def unsigned_eq_0_iff)
  next
    case (Cons c cs)
    with Suc.prems have c: "c \<noteq> 0" and cs: "0 \<notin> set cs" and l: "length cs < n"
      by auto
    show ?thesis
    proof (cases "mem p = c")
      case True
      with c Cons Suc.IH [OF cs l, of "Suc p"] show ?thesis
        by (simp add: c_string_at_Suc Let_def)
    next
      case False
      then have "uint (mem p) \<noteq> uint c"
        by (simp add: word_uint_eq_iff)
      with False Cons show ?thesis
        by (simp add: c_string_at_Suc Let_def)
    qed
  qed
qed

lemma c_str_lits:
  "c_str ''00040005'' = [48, 48, 48, 52, 48, 48, 48, 53]"
  "c_str ''00040007'' = [48, 48, 48, 52, 48, 48, 48, 55]"
  "c_str ''00070000'' = [48, 48, 48, 55, 48, 48, 48, 48]"
  "c_str ''00080000'' = [48, 48, 48, 56, 48, 48, 48, 48]"
  "c_str ''00190000'' = [48, 48, 49, 57, 48, 48, 48, 48]"
  "c_str ''000A0000'' = [48, 48, 48, 65, 48, 48, 48, 48]"
  by (simp_all add: c_str_def)

lemma gpsDecodeHardwareVersion_c_string:
  assumes "9 \<le> n"
  shows "gpsDecodeHardwareVersion mem p n = decodeHardwareVersion_spec (c_string_at mem p n)"
proof -
  have e: "(strncmp mem p lit n = 0) = (c_string_at mem p n = lit)"
    if "0 \<notin> set lit" "length lit = 8" for lit
    using that assms by (intro strncmp_eq_0_iff) auto
  show ?thesis
    unfolding gpsDecodeHardwareVersion_def decodeHardwareVersion_spec_def hw_version_table_def
    by (simp add: e c_str_lits ubx_hw_versions)
qed

lemma byte_range_shift: "byte_range mem (Suc p) n = byte_range (\<lambda>i. mem (Suc i)) p n"
  by (simp add: byte_range_def map_Suc_upt [symmetric] del: upt_Suc)

lemma mem_of_Cons_Suc: "(\<lambda>i. mem_of (x # xs) (Suc i)) = mem_of xs"
  by (simp add: mem_of_def fun_eq_iff)

lemma c_string_at_mem_of:
  "0 \<notin> set str \<Longrightarrow> c_string_at (mem_of str) 0 n = take n str"
proof (induction n arbitrary: str)
  case 0
  then show ?case by (simp add: c_string_at_def byte_range_0)
next
  case (Suc n)
  show ?case
  proof (cases str)
    case Nil
    then show ?thesis by (simp add: c_string_at_Suc mem_of_def)
  next
    case (Cons x xs)
    with Suc.prems have x: "x \<noteq> 0" and xs: "0 \<notin> set xs"
      by auto
    have "c_string_at (mem_of (x # xs)) (Suc 0) n = c_string_at (mem_of xs) 0 n"
      by (simp add: c_string_at_def byte_range_shift mem_of_Cons_Suc)
    with x Cons Suc.IH [OF xs] show ?thesis
      by (simp add: c_string_at_Suc mem_of_def)
  qed
qed

lemma decodeHardwareVersion_spec_length:
  "length str \<noteq> 8 \<Longrightarrow> decodeHardwareVersion_spec str = 0"
  unfolding decodeHardwareVersion_spec_def hw_version_table_def
  by (auto simp: c_str_lits)

lemma decodeHardwareVersion_spec_take:
  assumes "9 \<le> n"
  shows "decodeHardwareVersion_spec (take n str) = decodeHardwareVersion_spec str"
proof (cases "length str \<le> n")
  case True
  then show ?thesis by simp
next
  case False
  with assms have "length (take n str) \<noteq> 8" "length str \<noteq> 8"
    by auto
  then show ?thesis by (simp add: decodeHardwareVersion_spec_length)
qed

lemma decodeHardwareVersion_spec_values:
  "decodeHardwareVersion_spec (c_str ''00040005'') = 500"
  "decodeHardwareVersion_spec (c_str ''00040007'') = 600"
  "decodeHardwareVersion_spec (c_str ''00070000'') = 700"
  "decodeHardwareVersion_spec (c_str ''00080000'') = 800"
  "decodeHardwareVersion_spec (c_str ''00190000'') = 900"
  "decodeHardwareVersion_spec (c_str ''000A0000'') = 1000"
  "decodeHardwareVersion_spec (c_str ''FFFFFFFF'') = 0"
  "decodeHardwareVersion_spec (c_str ''000800001'') = 0"
  unfolding decodeHardwareVersion_spec_def hw_version_table_def
  by (simp_all add: c_str_def)

text \<open>
  C8.  For every version string (a C string, so without a NUL character) read with a
  bound that covers the literals and their terminator, as the driver's bound
  \<open>sizeof(hwVersion) = 10\<close> does, \<open>gpsDecodeHardwareVersion\<close> returns the tier the table
  of the specification gives for exactly that string: 500, 600, 700, 800, 900, 1000 for
  the six known strings and unknown (0) for every other string, longer strings with a
  known prefix included.
\<close>

theorem gpsDecodeHardwareVersion_exact:
  assumes "0 \<notin> set str" and "9 \<le> nBufSize"
  shows "gpsDecodeHardwareVersion (mem_of str) 0 nBufSize = decodeHardwareVersion_spec str"
proof -
  have "gpsDecodeHardwareVersion (mem_of str) 0 nBufSize
      = decodeHardwareVersion_spec (c_string_at (mem_of str) 0 nBufSize)"
    using assms(2) by (rule gpsDecodeHardwareVersion_c_string)
  also have "c_string_at (mem_of str) 0 nBufSize = take nBufSize str"
    using assms(1) by (rule c_string_at_mem_of)
  also have "decodeHardwareVersion_spec (take nBufSize str) = decodeHardwareVersion_spec str"
    using assms(2) by (rule decodeHardwareVersion_spec_take)
  finally show ?thesis .
qed

theorem gpsDecodeHardwareVersion_exact_witness:
  "gpsDecodeHardwareVersion (mem_of (c_str ''00040005'')) 0 10 = UBX_HW_VERSION_UBLOX5
   \<and> gpsDecodeHardwareVersion (mem_of (c_str ''00040007'')) 0 10 = UBX_HW_VERSION_UBLOX6
   \<and> gpsDecodeHardwareVersion (mem_of (c_str ''00070000'')) 0 10 = UBX_HW_VERSION_UBLOX7
   \<and> gpsDecodeHardwareVersion (mem_of (c_str ''00080000'')) 0 10 = UBX_HW_VERSION_UBLOX8
   \<and> gpsDecodeHardwareVersion (mem_of (c_str ''00190000'')) 0 10 = UBX_HW_VERSION_UBLOX9
   \<and> gpsDecodeHardwareVersion (mem_of (c_str ''000A0000'')) 0 10 = UBX_HW_VERSION_UBLOX10
   \<and> gpsDecodeHardwareVersion (mem_of (c_str ''FFFFFFFF'')) 0 10 = UBX_HW_VERSION_UNKNOWN
   \<and> gpsDecodeHardwareVersion (mem_of (c_str ''000800001'')) 0 10 = UBX_HW_VERSION_UNKNOWN"
proof -
  have z:
    "0 \<notin> set (c_str ''00040005'')" "0 \<notin> set (c_str ''00040007'')"
    "0 \<notin> set (c_str ''00070000'')" "0 \<notin> set (c_str ''00080000'')"
    "0 \<notin> set (c_str ''00190000'')" "0 \<notin> set (c_str ''000A0000'')"
    "0 \<notin> set (c_str ''FFFFFFFF'')" "0 \<notin> set (c_str ''000800001'')"
    by (simp_all add: c_str_def)
  have n: "(9 :: nat) \<le> 10"
    by simp
  note t = z [THEN gpsDecodeHardwareVersion_exact, OF n]
  show ?thesis
    by (simp add: t decodeHardwareVersion_spec_values ubx_hw_versions)
qed


subsection \<open>Configuration sequencer: the GNSS step\<close>

lemma length_byte_range: "length (byte_range mem p n) = n"
  by (simp add: byte_range_def)

lemma gpsDecodeHardwareVersion_le: "gpsDecodeHardwareVersion szBuf p n \<le> 1000"
  unfolding gpsDecodeHardwareVersion_def by (simp add: ubx_hw_versions)

lemma gpsConfigure_GNSS_skip: "hwVersion s \<le> 1000 \<Longrightarrow> gpsConfigure_GNSS s = s"
  unfolding gpsConfigure_GNSS_def by (auto simp: word_le_nat_alt)

lemma serial_tx_sendConfigMessageUBLOX: "serial_tx (sendConfigMessageUBLOX s) \<noteq> serial_tx s"
proof -
  have "byte_range sb 0 (len + 8) \<noteq> []" for sb len
    using length_byte_range [of sb 0 "len + 8"] by (cases "byte_range sb 0 (len + 8)") auto
  then show ?thesis
    unfolding sendConfigMessageUBLOX_def by (simp add: Let_def split: prod.splits)
qed

lemma serial_tx_configureGNSS: "serial_tx (configureGNSS s) \<noteq> serial_tx s"
proof -
  have "serial_tx (sendConfigMessageUBLOX (s\<lparr>send_buffer := sb\<rparr>)) \<noteq> serial_tx s" for sb
    using serial_tx_sendConfigMessageUBLOX [of "s\<lparr>send_buffer := sb\<rparr>"] by simp
  then show ?thesis
    unfolding configureGNSS_def by (simp add: Let_def split: prod.splits)
qed

lemma gpsDecodeHardwareVersion_ublox8:
  "gpsDecodeHardwareVersion (mem_of (c_str ''00080000'')) 0 10 = UBX_HW_VERSION_UBLOX8"
proof -
  have "0 \<notin> set (c_str ''00080000'')"
    by (simp add: c_str_def)
  then show ?thesis
    by (simp add: gpsDecodeHardwareVersion_c_string c_string_at_mem_of
        decodeHardwareVersion_spec_take decodeHardwareVersion_spec_values ubx_hw_versions)
qed

text \<open>
  What \<open>configureGNSS\<close> sends when it is called: a CFG-GNSS command with the SBAS block
  first, a Galileo block after it exactly when \<open>capGalileo\<close> is set, and the ack tracker
  waiting for the command's id.
\<close>

lemma configureGNSS_payload:
  "send_buffer (configureGNSS s) 2 = CLASS_CFG
   \<and> send_buffer (configureGNSS s) 3 = MSG_CFG_GNSS
   \<and> send_buffer (configureGNSS s) 9 = (if capGalileo s then 2 else 1)
   \<and> send_buffer (configureGNSS s) 10 = GNSSID_SBAS
   \<and> (if capGalileo s then send_buffer (configureGNSS s) 18 = GNSSID_GALILEO else True)
   \<and> rd_u16 (send_buffer (configureGNSS s)) 4 = (if capGalileo s then 20 else 12)
   \<and> length (serial_tx (configureGNSS s))
       = length (serial_tx s) + (if capGalileo s then 28 else 20)
   \<and> ack_state (configureGNSS s) = UBX_ACK_WAITING
   \<and> ack_waiting_msg (configureGNSS s) = MSG_CFG_GNSS"
  unfolding configureGNSS_def sendConfigMessageUBLOX_def configureGNSS_SBAS_def
    configureGNSS_GALILEO_def
  by (simp add: Let_def rd_u16_def length_byte_range split: prod.splits)

text \<open>
  C1.  The version string "00080000" decodes to the 8th-generation tier (800).  With that
  tier detected, the GNSS step of the sequencer leaves the driver state and the port
  untouched: the multi-constellation command is not sent, although \<open>configureGNSS\<close>
  would write a command to the port.  The same holds for every tier the decoder can
  return: the step compares the tier with 80000, and the tiers are 0 and 500..1000.
\<close>

theorem gpsConfigure_GNSS_never_sent:
  "gpsDecodeHardwareVersion (mem_of (c_str ''00080000'')) 0 10 = UBX_HW_VERSION_UBLOX8
   \<and> gpsConfigure_GNSS (s\<lparr>hwVersion := UBX_HW_VERSION_UBLOX8\<rparr>)
       = s\<lparr>hwVersion := UBX_HW_VERSION_UBLOX8\<rparr>
   \<and> gpsConfigure_GNSS (s\<lparr>hwVersion := gpsDecodeHardwareVersion szBuf p n\<rparr>)
       = s\<lparr>hwVersion := gpsDecodeHardwareVersion szBuf p n\<rparr>
   \<and> serial_tx (configureGNSS (s\<lparr>hwVersion := UBX_HW_VERSION_UBLOX8\<rparr>)) \<noteq> serial_tx s"
proof (intro conjI)
  show "gpsDecodeHardwareVersion (mem_of (c_str ''00080000'')) 0 10 = UBX_HW_VERSION_UBLOX8"
    by (rule gpsDecodeHardwareVersion_ublox8)
  show "gpsConfigure_GNSS (s\<lparr>hwVersion := UBX_HW_VERSION_UBLOX8\<rparr>)
       = s\<lparr>hwVersion := UBX_HW_VERSION_UBLOX8\<rparr>"
    by (rule gpsConfigure_GNSS_skip) (simp add: ubx_hw_versions)
  show "gpsConfigure_GNSS (s\<lparr>hwVersion := gpsDecodeHardwareVersion szBuf p n\<rparr>)
       = s\<lparr>hwVersion := gpsDecodeHardwareVersion szBuf p n\<rparr>"
    by (rule gpsConfigure_GNSS_skip) (simp add: gpsDecodeHardwareVersion_le)
  show "serial_tx (configureGNSS (s\<lparr>hwVersion := UBX_HW_VERSION_UBLOX8\<rparr>)) \<noteq> serial_tx s"
    using serial_tx_configureGNSS [of "s\<lparr>hwVersion := UBX_HW_VERSION_UBLOX8\<rparr>"] by simp
qed


subsection \<open>Solution mapper\<close>

lemma ubx_switch_simps:
  "msg_id s = MSG_POSLLH \<Longrightarrow> ubx_switch ext s = Some (case_MSG_POSLLH ext s)"
  "msg_id s = MSG_STATUS \<Longrightarrow> ubx_switch ext s = Some (case_MSG_STATUS s)"
  "msg_id s = MSG_SOL \<Longrightarrow> ubx_switch ext s = Some (case_MSG_SOL ext s)"
  "msg_id s = MSG_VELNED \<Longrightarrow> ubx_switch ext s = Some (case_MSG_VELNED s)"
  "msg_id s = MSG_TIMEUTC \<Longrightarrow> ubx_switch ext s = Some (case_MSG_TIMEUTC s)"
  "msg_id s = MSG_PVT \<Longrightarrow> ubx_switch ext s = Some (case_MSG_PVT ext s)"
  "msg_id s = MSG_VER \<Longrightarrow> ubx_switch ext s = Some (case_MSG_VER s)"
  "msg_id s = MSG_ACK_ACK \<Longrightarrow> ubx_switch ext s = Some (case_MSG_ACK_ACK s)"
  "msg_id s = MSG_ACK_NACK \<Longrightarrow> ubx_switch ext s = Some (case_MSG_ACK_NACK s)"
  by (simp_all add: ubx_switch_def ubx_protocol_bytes)

lemma UBX_VALID_GPS_DATE_TIME_bits:
  "UBX_VALID_GPS_DATE_TIME valid \<longleftrightarrow> bit valid 0 \<and> bit valid 1"
  unfolding UBX_VALID_GPS_DATE_TIME_def UBX_VALID_GPS_DATE_def UBX_VALID_GPS_TIME_def
  by (simp only: bit_iff_and_push_bit_not_eq_0)

lemma sdiv_int_bounds:
  fixes a b :: int
  assumes "0 < b"
  shows "(0 \<le> a \<longrightarrow> 0 \<le> a sdiv b \<and> a sdiv b \<le> a) \<and> (a < 0 \<longrightarrow> a \<le> a sdiv b \<and> a sdiv b \<le> 0)"
proof (cases "0 \<le> a")
  case True
  have "a div b \<le> a div 1"
    using True assms by (intro zdiv_mono2) simp_all
  moreover have "0 \<le> a div b"
    using True assms by (simp add: pos_imp_zdiv_nonneg_iff)
  moreover have "a sdiv b = a div b"
    using True assms by (cases "a = 0") (simp_all add: signed_divide_int_def)
  ultimately show ?thesis using True by simp
next
  case False
  then have n: "0 \<le> - a" by simp
  have "(- a) div b \<le> (- a) div 1"
    using n assms by (intro zdiv_mono2) simp_all
  moreover have "0 \<le> (- a) div b"
    using n assms by (simp only: pos_imp_zdiv_nonneg_iff)
  moreover have "a sdiv b = - ((- a) div b)"
    using False assms by (simp add: signed_divide_int_def)
  ultimately show ?thesis using False by simp
qed

lemma sint_sdiv32:
  assumes "0 < sint b"
  shows "sint (sdiv32 a b) = sint a sdiv sint b"
proof -
  have a: "- (2 ^ 31) \<le> sint a" "sint a < 2 ^ 31"
    using sint_ge [of a] sint_lt [of a] by simp_all
  from sdiv_int_bounds [OF assms, of "sint a"] a
  have "- (2 ^ 31) \<le> sint a sdiv sint b" "sint a sdiv sint b < 2 ^ 31"
    by linarith+
  then show ?thesis
    unfolding sdiv32_def by (simp add: sint_sbintrunc' signed_take_bit_int_eq_self)
qed


lemma gpsParceFrameUBLOX_gpsSol:
  "gpsSol (fst (gpsParceFrameUBLOX ext s)) =
     (case ubx_switch ext s of None \<Rightarrow> gpsSol s | Some s1 \<Rightarrow> gpsSol s1)"
  by (simp add: gpsParceFrameUBLOX_def split: option.splits)

lemma gpsParceFrameUBLOX_ack_state:
  "ack_state (fst (gpsParceFrameUBLOX ext s)) =
     (case ubx_switch ext s of None \<Rightarrow> ack_state s | Some s1 \<Rightarrow> ack_state s1)"
  by (simp add: gpsParceFrameUBLOX_def split: option.splits)

lemma sendConfigMessageUBLOX_ack:
  "ack_state (sendConfigMessageUBLOX s) = UBX_ACK_WAITING
   \<and> ack_waiting_msg (sendConfigMessageUBLOX s) = send_buffer s 3"
  unfolding sendConfigMessageUBLOX_def
  by (simp add: Let_def split: prod.splits)


lemma mem_of_Cons_0: "mem_of (x # xs) 0 = x"
  by (simp add: mem_of_def)

lemma mem_of_Cons_numeral: "mem_of (x # xs) (numeral k) = mem_of xs (pred_numeral k)"
  by (simp add: mem_of_def numeral_eq_Suc)

lemma mem_of_Cons_Suc': "mem_of (x # xs) (Suc n) = mem_of xs n"
  by (simp add: mem_of_def)

lemma mem_of_Nil: "mem_of [] n = 0"
  by (simp add: mem_of_def)

lemmas mem_of_simps = mem_of_Cons_0 mem_of_Cons_numeral mem_of_Cons_Suc' mem_of_Nil


text \<open>
  C3.  While the ack state is waiting, an accepted frame with the acknowledge id whose
  payload message id (byte 1) equals the id waited for sets the ack state to
  acknowledged, one with the negative-acknowledge id sets it to negative-acknowledged;
  the payload class (byte 0) plays no part, and a different payload message id leaves
  the state at waiting.  Sending a command with id 0x07 sets the state to waiting for
  0x07; then the ack payload {class 0x06, msg 0x07} gives acknowledged and an ack payload
  with msg 0x08 leaves waiting.
\<close>

theorem ack_tracker_matches_msg_id:
  "(ack_state s = UBX_ACK_WAITING \<longrightarrow>
      ack_state (fst (gpsParceFrameUBLOX ext
          (s\<lparr>msg_id := MSG_ACK_ACK, buffer := (buffer s)(0 := cls, 1 := msg)\<rparr>)))
        = (if msg = ack_waiting_msg s then UBX_ACK_GOT_ACK else UBX_ACK_WAITING)
    \<and> ack_state (fst (gpsParceFrameUBLOX ext
          (s\<lparr>msg_id := MSG_ACK_NACK, buffer := (buffer s)(0 := cls, 1 := msg)\<rparr>)))
        = (if msg = ack_waiting_msg s then UBX_ACK_GOT_NAK else UBX_ACK_WAITING))
   \<and> ack_state (sendConfigMessageUBLOX (s\<lparr>send_buffer := (send_buffer s)(3 := 0x07)\<rparr>))
       = UBX_ACK_WAITING
   \<and> ack_waiting_msg (sendConfigMessageUBLOX (s\<lparr>send_buffer := (send_buffer s)(3 := 0x07)\<rparr>))
       = 0x07
   \<and> ack_state (fst (gpsParceFrameUBLOX ext
         ((sendConfigMessageUBLOX (s\<lparr>send_buffer := (send_buffer s)(3 := 0x07)\<rparr>))
            \<lparr>msg_id := MSG_ACK_ACK, buffer := (buffer s)(0 := 0x06, 1 := 0x07)\<rparr>)))
       = UBX_ACK_GOT_ACK
   \<and> ack_state (fst (gpsParceFrameUBLOX ext
         ((sendConfigMessageUBLOX (s\<lparr>send_buffer := (send_buffer s)(3 := 0x07)\<rparr>))
            \<lparr>msg_id := MSG_ACK_ACK, buffer := (buffer s)(0 := cls, 1 := 0x08)\<rparr>)))
       = UBX_ACK_WAITING"
proof -
  have ack: "ack_state (fst (gpsParceFrameUBLOX ext (t\<lparr>msg_id := MSG_ACK_ACK, buffer := b\<rparr>)))
      = (if ack_state t = UBX_ACK_WAITING \<and> b 1 = ack_waiting_msg t
         then UBX_ACK_GOT_ACK else ack_state t)" for t b
    by (simp add: gpsParceFrameUBLOX_ack_state ubx_switch_simps case_MSG_ACK_ACK_def)
  have nak: "ack_state (fst (gpsParceFrameUBLOX ext (t\<lparr>msg_id := MSG_ACK_NACK, buffer := b\<rparr>)))
      = (if ack_state t = UBX_ACK_WAITING \<and> b 1 = ack_waiting_msg t
         then UBX_ACK_GOT_NAK else ack_state t)" for t b
    by (simp add: gpsParceFrameUBLOX_ack_state ubx_switch_simps case_MSG_ACK_NACK_def)
  note sent = sendConfigMessageUBLOX_ack [of "s\<lparr>send_buffer := (send_buffer s)(3 := 0x07)\<rparr>"]
  from sent show ?thesis
    by (simp add: ack nak)
qed

theorem ack_tracker_witness:
  "ack_state (ubx_zero\<lparr>ack_waiting_msg := 0x24\<rparr>) = UBX_ACK_WAITING
   \<and> ack_state (fst (gpsParceFrameUBLOX ext_sample
        (ubx_zero\<lparr>ack_waiting_msg := 0x24, msg_id := MSG_ACK_ACK,
                   buffer := (\<lambda>i. 0)(0 := 0x06, 1 := 0x24)\<rparr>))) = UBX_ACK_GOT_ACK
   \<and> ack_state (fst (gpsParceFrameUBLOX ext_sample
        (ubx_zero\<lparr>ack_waiting_msg := 0x24, msg_id := MSG_ACK_NACK,
                   buffer := (\<lambda>i. 0)(0 := 0x06, 1 := 0x24)\<rparr>))) = UBX_ACK_GOT_NAK
   \<and> ack_state (fst (gpsParceFrameUBLOX ext_sample
        (ubx_zero\<lparr>ack_waiting_msg := 0x24, msg_id := MSG_ACK_ACK,
                   buffer := (\<lambda>i. 0)(0 := 0x06, 1 := 0x08)\<rparr>))) = UBX_ACK_WAITING"
proof -
  have w: "ack_state (ubx_zero\<lparr>ack_waiting_msg := 0x24\<rparr>) = UBX_ACK_WAITING"
    and b: "buffer (ubx_zero\<lparr>ack_waiting_msg := 0x24\<rparr>) = (\<lambda>i. 0)"
    by (simp_all add: ubx_zero_def)
  note t = ack_tracker_matches_msg_id [THEN conjunct1, rule_format, OF w, of ext_sample]
  from t [of "0x06" "0x24"] t [of "0x06" "0x08"] w show ?thesis
    by (simp add: b)
qed


text \<open>
  C4.  For an accepted UTC-time frame, if bit 0 and bit 1 of the validity byte are both
  set the timestamp fields are set from the frame, with milliseconds the nanosecond
  field divided by 1000000 (C division of the signed field, truncating), and time-valid
  is set; otherwise the solution changes only in that time-valid is cleared, so no
  timestamp field is written.
\<close>

theorem timeutc_accepted_iff_date_and_time_valid:
  assumes "msg_id s = MSG_TIMEUTC"
  shows "if bit (buffer s 19) 0 \<and> bit (buffer s 19) 1
    then gpsSol (fst (gpsParceFrameUBLOX ext s)) =
           (gpsSol s)\<lparr>time := \<lparr>year = rd_u16 (buffer s) 12, month = buffer s 14,
                                  day = buffer s 15, hours = buffer s 16,
                                  minutes = buffer s 17, seconds = buffer s 18,
                                  millis = sdiv32 (rd_u32 (buffer s) 8) 1000000\<rparr>,
                       validTime := True\<rparr>
         \<and> sint (millis (time (gpsSol (fst (gpsParceFrameUBLOX ext s)))))
             = sint (rd_u32 (buffer s) 8) sdiv 1000000
    else gpsSol (fst (gpsParceFrameUBLOX ext s)) = (gpsSol s)\<lparr>validTime := False\<rparr>"
proof -
  have sol: "gpsSol (fst (gpsParceFrameUBLOX ext s)) = gpsSol (case_MSG_TIMEUTC s)"
    using assms by (simp add: gpsParceFrameUBLOX_gpsSol ubx_switch_simps)
  show ?thesis
  proof (cases "bit (buffer s 19) 0 \<and> bit (buffer s 19) 1")
    case True
    then have "UBX_VALID_GPS_DATE_TIME (buffer s 19)"
      by (simp add: UBX_VALID_GPS_DATE_TIME_bits)
    then have "gpsSol (case_MSG_TIMEUTC s) =
           (gpsSol s)\<lparr>time := \<lparr>year = rd_u16 (buffer s) 12, month = buffer s 14,
                                  day = buffer s 15, hours = buffer s 16,
                                  minutes = buffer s 17, seconds = buffer s 18,
                                  millis = sdiv32 (rd_u32 (buffer s) 8) 1000000\<rparr>,
                       validTime := True\<rparr>"
      by (simp add: case_MSG_TIMEUTC_def Let_def)
    with True sol show ?thesis
      by (simp add: sint_sdiv32)
  next
    case False
    then have "\<not> UBX_VALID_GPS_DATE_TIME (buffer s 19)"
      by (simp add: UBX_VALID_GPS_DATE_TIME_bits)
    then have "gpsSol (case_MSG_TIMEUTC s) = (gpsSol s)\<lparr>validTime := False\<rparr>"
      by (simp add: case_MSG_TIMEUTC_def Let_def)
    with sol have r: "gpsSol (fst (gpsParceFrameUBLOX ext s)) = (gpsSol s)\<lparr>validTime := False\<rparr>"
      by simp
    show ?thesis
      by (simp only: False if_False r)
  qed
qed

theorem timeutc_witness:
  "msg_id (ubx_zero\<lparr>msg_id := MSG_TIMEUTC, buffer := timeutc_payload 3\<rparr>) = MSG_TIMEUTC
   \<and> gpsSol (fst (gpsParceFrameUBLOX ext_sample
        (ubx_zero\<lparr>msg_id := MSG_TIMEUTC, buffer := timeutc_payload 3\<rparr>)))
      = (gpsSol ubx_zero)\<lparr>time := \<lparr>year = 2023, month = 6, day = 15, hours = 12, minutes = 30,
                                       seconds = 45, millis = 123\<rparr>, validTime := True\<rparr>
   \<and> gpsSol (fst (gpsParceFrameUBLOX ext_sample
        (ubx_zero\<lparr>msg_id := MSG_TIMEUTC, buffer := timeutc_payload 1,
                   gpsSol := (gpsSol ubx_zero)\<lparr>validTime := True\<rparr>\<rparr>)))
      = gpsSol ubx_zero"
proof -
  have r: "rd_u16 (timeutc_payload v) 12 = 2023" "rd_u32 (timeutc_payload v) 8 = 123456789" for v
    by (simp_all add: rd_u16_def rd_u32_def timeutc_payload_def mem_of_simps)
  have d: "sdiv32 123456789 1000000 = 123"
    by (simp add: sdiv32_def signed_divide_int_def)
  have b: "timeutc_payload v 14 = 6" "timeutc_payload v 15 = 15" "timeutc_payload v 16 = 12"
    "timeutc_payload v 17 = 30" "timeutc_payload v 18 = 45" "timeutc_payload v 19 = v" for v
    by (simp_all add: timeutc_payload_def mem_of_simps)
  have v: "bit (3 :: u8) 0 \<and> bit (3 :: u8) 1" "\<not> (bit (1 :: u8) 0 \<and> bit (1 :: u8) (1 :: nat))"
    by (simp_all add: bit_numeral_word_iff)
  note t1 = timeutc_accepted_iff_date_and_time_valid
    [of "ubx_zero\<lparr>msg_id := MSG_TIMEUTC, buffer := timeutc_payload 3\<rparr>" ext_sample]
  note t2 = timeutc_accepted_iff_date_and_time_valid
    [of "ubx_zero\<lparr>msg_id := MSG_TIMEUTC, buffer := timeutc_payload 1,
                   gpsSol := (gpsSol ubx_zero)\<lparr>validTime := True\<rparr>\<rparr>" ext_sample]
  have z: "validTime (gpsSol ubx_zero) = False"
    by (simp add: ubx_zero_def)
  from t1 t2 show ?thesis
    by (simp add: r d b v z)
qed



text \<open>
  C9.  For an accepted combined PVT frame the north, east and down velocities and the 2-D
  ground speed are the frame's fields divided by 10 (C division of signed values); for
  an accepted separate velocity frame they are the frame's fields unchanged; in both
  frames the ground course is the 2-D heading divided by 10000, converted to 16 bits.
\<close>

theorem velocity_scaling:
  "(msg_id s = MSG_PVT \<longrightarrow>
      velNED_X (gpsSol (fst (gpsParceFrameUBLOX ext s))) = sdiv32 (rd_u32 (buffer s) 48) 10
    \<and> velNED_Y (gpsSol (fst (gpsParceFrameUBLOX ext s))) = sdiv32 (rd_u32 (buffer s) 52) 10
    \<and> velNED_Z (gpsSol (fst (gpsParceFrameUBLOX ext s))) = sdiv32 (rd_u32 (buffer s) 56) 10
    \<and> groundSpeed (gpsSol (fst (gpsParceFrameUBLOX ext s))) = sdiv32 (rd_u32 (buffer s) 60) 10
    \<and> groundCourse (gpsSol (fst (gpsParceFrameUBLOX ext s)))
        = ucast (sdiv32 (rd_u32 (buffer s) 64) 10000))
   \<and> (msg_id s = MSG_VELNED \<longrightarrow>
      velNED_X (gpsSol (fst (gpsParceFrameUBLOX ext s))) = rd_u32 (buffer s) 4
    \<and> velNED_Y (gpsSol (fst (gpsParceFrameUBLOX ext s))) = rd_u32 (buffer s) 8
    \<and> velNED_Z (gpsSol (fst (gpsParceFrameUBLOX ext s))) = rd_u32 (buffer s) 12
    \<and> groundSpeed (gpsSol (fst (gpsParceFrameUBLOX ext s))) = rd_u32 (buffer s) 20
    \<and> groundCourse (gpsSol (fst (gpsParceFrameUBLOX ext s)))
        = ucast (sdiv32 (rd_u32 (buffer s) 24) 10000))
   \<and> sint (sdiv32 x 10) = sint x sdiv 10
   \<and> sint (sdiv32 x 10000) = sint x sdiv 10000"
proof -
  have pvt: "gpsSol (fst (gpsParceFrameUBLOX ext s)) = gpsSol (case_MSG_PVT ext s)"
    if "msg_id s = MSG_PVT"
    using that by (simp add: gpsParceFrameUBLOX_gpsSol ubx_switch_simps)
  have velned: "gpsSol (fst (gpsParceFrameUBLOX ext s)) = gpsSol (case_MSG_VELNED s)"
    if "msg_id s = MSG_VELNED"
    using that by (simp add: gpsParceFrameUBLOX_gpsSol ubx_switch_simps)
  have d: "sint (sdiv32 x 10) = sint x sdiv 10" "sint (sdiv32 x 10000) = sint x sdiv 10000"
    by (simp_all add: sint_sdiv32)
  show ?thesis
    by (simp add: pvt velned d case_MSG_PVT_def case_MSG_VELNED_def Let_def)
qed

theorem velocity_scaling_witness:
  "msg_id (ubx_zero\<lparr>msg_id := MSG_PVT, buffer := pvt_velocity_payload\<rparr>) = MSG_PVT
   \<and> sint (velNED_X (gpsSol (fst (gpsParceFrameUBLOX ext_sample
        (ubx_zero\<lparr>msg_id := MSG_PVT, buffer := pvt_velocity_payload\<rparr>))))) = - 1
   \<and> sint (velNED_Y (gpsSol (fst (gpsParceFrameUBLOX ext_sample
        (ubx_zero\<lparr>msg_id := MSG_PVT, buffer := pvt_velocity_payload\<rparr>))))) = 2
   \<and> sint (velNED_Z (gpsSol (fst (gpsParceFrameUBLOX ext_sample
        (ubx_zero\<lparr>msg_id := MSG_PVT, buffer := pvt_velocity_payload\<rparr>))))) = - 1
   \<and> groundSpeed (gpsSol (fst (gpsParceFrameUBLOX ext_sample
        (ubx_zero\<lparr>msg_id := MSG_PVT, buffer := pvt_velocity_payload\<rparr>)))) = 12
   \<and> groundCourse (gpsSol (fst (gpsParceFrameUBLOX ext_sample
        (ubx_zero\<lparr>msg_id := MSG_PVT, buffer := pvt_velocity_payload\<rparr>)))) = 180
   \<and> msg_id (ubx_zero\<lparr>msg_id := MSG_VELNED, buffer := velned_payload\<rparr>) = MSG_VELNED
   \<and> sint (velNED_X (gpsSol (fst (gpsParceFrameUBLOX ext_sample
        (ubx_zero\<lparr>msg_id := MSG_VELNED, buffer := velned_payload\<rparr>))))) = - 15
   \<and> groundSpeed (gpsSol (fst (gpsParceFrameUBLOX ext_sample
        (ubx_zero\<lparr>msg_id := MSG_VELNED, buffer := velned_payload\<rparr>)))) = 123
   \<and> groundCourse (gpsSol (fst (gpsParceFrameUBLOX ext_sample
        (ubx_zero\<lparr>msg_id := MSG_VELNED, buffer := velned_payload\<rparr>)))) = 180"
proof -
  have r: "rd_u32 pvt_velocity_payload 48 = - 15" "rd_u32 pvt_velocity_payload 52 = 25"
    "rd_u32 pvt_velocity_payload 56 = - 10" "rd_u32 pvt_velocity_payload 60 = 123"
    "rd_u32 pvt_velocity_payload 64 = 1800000"
    by (simp_all add: rd_u32_def pvt_velocity_payload_def)
  have r': "rd_u32 (velned_payload) 4 = - 15"
    "rd_u32 (velned_payload) 20 = 123"
    "rd_u32 (velned_payload) 24 = 1800000"
    by (simp_all add: rd_u32_def velned_payload_def)
  have d: "sdiv32 (- 15) 10 = - 1" "sdiv32 25 10 = 2" "sdiv32 (- 10) 10 = - 1"
    "sdiv32 123 10 = 12" "sdiv32 1800000 10000 = 180"
    by (simp_all add: sdiv32_def signed_divide_int_def)
  note t1 = velocity_scaling [THEN conjunct1, rule_format,
      of "ubx_zero\<lparr>msg_id := MSG_PVT, buffer := pvt_velocity_payload\<rparr>" ext_sample]
  note t2 = velocity_scaling [THEN conjunct2, THEN conjunct1, rule_format,
      of "ubx_zero\<lparr>msg_id := MSG_VELNED, buffer := velned_payload\<rparr>" ext_sample]
  from t1 t2 show ?thesis
    by (simp add: r r' d)
qed



subsection \<open>The mapper and the decoder, field by field\<close>

lemmas case_defs = case_MSG_POSLLH_def case_MSG_STATUS_def case_MSG_SOL_def case_MSG_VELNED_def
  case_MSG_TIMEUTC_def case_MSG_PVT_def case_MSG_VER_def case_MSG_ACK_ACK_def case_MSG_ACK_NACK_def

text \<open>What each case does to the two latches.\<close>

lemma case_latches:
  "new_position (case_MSG_POSLLH ext s) = True" "new_speed (case_MSG_POSLLH ext s) = new_speed s"
  "new_position (case_MSG_STATUS s) = new_position s" "new_speed (case_MSG_STATUS s) = new_speed s"
  "new_position (case_MSG_SOL ext s) = new_position s" "new_speed (case_MSG_SOL ext s) = new_speed s"
  "new_position (case_MSG_VELNED s) = new_position s" "new_speed (case_MSG_VELNED s) = True"
  "new_position (case_MSG_TIMEUTC s) = new_position s" "new_speed (case_MSG_TIMEUTC s) = new_speed s"
  "new_position (case_MSG_PVT ext s) = True" "new_speed (case_MSG_PVT ext s) = True"
  "new_position (case_MSG_VER s) = new_position s" "new_speed (case_MSG_VER s) = new_speed s"
  "new_position (case_MSG_ACK_ACK s) = new_position s" "new_speed (case_MSG_ACK_ACK s) = new_speed s"
  "new_position (case_MSG_ACK_NACK s) = new_position s" "new_speed (case_MSG_ACK_NACK s) = new_speed s"
  by (simp_all add: case_defs Let_def)

lemma ubx_switch_latches:
  assumes "ubx_switch ext s = Some s1"
  shows "new_position s1 = (new_position s \<or> msg_id s = MSG_POSLLH \<or> msg_id s = MSG_PVT)"
    and "new_speed s1 = (new_speed s \<or> msg_id s = MSG_VELNED \<or> msg_id s = MSG_PVT)"
  using assms
  by (auto simp: ubx_switch_def case_latches ubx_protocol_bytes split: if_splits)

lemma gpsParceFrameUBLOX_latches:
  "\<not> (new_position (fst (gpsParceFrameUBLOX ext s)) \<and> new_speed (fst (gpsParceFrameUBLOX ext s)))
   \<or> (new_position s \<and> new_speed s \<and> ubx_switch ext s = None)"
  by (auto simp: gpsParceFrameUBLOX_def split: option.splits)


text \<open>The mapper leaves the decoder's variables and the receive buffer alone.\<close>

lemma case_decoder_fields:
  "step (case_MSG_POSLLH ext s) = step s" "skip_packet (case_MSG_POSLLH ext s) = skip_packet s"
  "buffer (case_MSG_POSLLH ext s) = buffer s"
  "step (case_MSG_STATUS s) = step s" "skip_packet (case_MSG_STATUS s) = skip_packet s"
  "buffer (case_MSG_STATUS s) = buffer s"
  "step (case_MSG_SOL ext s) = step s" "skip_packet (case_MSG_SOL ext s) = skip_packet s"
  "buffer (case_MSG_SOL ext s) = buffer s"
  "step (case_MSG_VELNED s) = step s" "skip_packet (case_MSG_VELNED s) = skip_packet s"
  "buffer (case_MSG_VELNED s) = buffer s"
  "step (case_MSG_TIMEUTC s) = step s" "skip_packet (case_MSG_TIMEUTC s) = skip_packet s"
  "buffer (case_MSG_TIMEUTC s) = buffer s"
  "step (case_MSG_PVT ext s) = step s" "skip_packet (case_MSG_PVT ext s) = skip_packet s"
  "buffer (case_MSG_PVT ext s) = buffer s"
  "step (case_MSG_VER s) = step s" "skip_packet (case_MSG_VER s) = skip_packet s"
  "buffer (case_MSG_VER s) = buffer s"
  "step (case_MSG_ACK_ACK s) = step s" "skip_packet (case_MSG_ACK_ACK s) = skip_packet s"
  "buffer (case_MSG_ACK_ACK s) = buffer s"
  "step (case_MSG_ACK_NACK s) = step s" "skip_packet (case_MSG_ACK_NACK s) = skip_packet s"
  "buffer (case_MSG_ACK_NACK s) = buffer s"
  by (simp_all add: case_defs Let_def)

lemma ubx_switch_decoder_fields:
  assumes "ubx_switch ext s = Some s1"
  shows "step s1 = step s" and "skip_packet s1 = skip_packet s" and "buffer s1 = buffer s"
  using assms
  by (auto simp: ubx_switch_def case_decoder_fields split: if_splits)

lemma gpsParceFrameUBLOX_decoder_fields:
  "step (fst (gpsParceFrameUBLOX ext s)) = step s"
  "skip_packet (fst (gpsParceFrameUBLOX ext s)) = skip_packet s"
  "buffer (fst (gpsParceFrameUBLOX ext s)) = buffer s"
  by (auto simp: gpsParceFrameUBLOX_def ubx_switch_decoder_fields split: option.splits)

text \<open>The decoder, one equation per value of \<open>_step\<close>.\<close>

lemma gpsNewFrameUBLOX_step0:
  "step s = 0 \<Longrightarrow> gpsNewFrameUBLOX ext data s =
     (if PREAMBLE1 = data then (s\<lparr>skip_packet := False, step := 1\<rparr>, False) else (s, False))"
  by (simp add: gpsNewFrameUBLOX_def)

lemma gpsNewFrameUBLOX_step1:
  "step s = 1 \<Longrightarrow> gpsNewFrameUBLOX ext data s =
     (if PREAMBLE2 \<noteq> data then (s\<lparr>step := 0\<rparr>, False) else (s\<lparr>step := 2\<rparr>, False))"
  by (simp add: gpsNewFrameUBLOX_def)

lemma gpsNewFrameUBLOX_step2:
  "step s = 2 \<Longrightarrow> gpsNewFrameUBLOX ext data s =
     (s\<lparr>step := 3, msg_class := data, ck_a := data, ck_b := data\<rparr>, False)"
  by (simp add: gpsNewFrameUBLOX_def)

lemma gpsNewFrameUBLOX_step3:
  "step s = 3 \<Longrightarrow> gpsNewFrameUBLOX ext data s =
     (s\<lparr>step := 4, ck_a := ck_a s + data, ck_b := ck_b s + (ck_a s + data), msg_id := data\<rparr>,
      False)"
  by (simp add: gpsNewFrameUBLOX_def Let_def)

lemma gpsNewFrameUBLOX_step4:
  "step s = 4 \<Longrightarrow> gpsNewFrameUBLOX ext data s =
     (s\<lparr>step := 5, ck_a := ck_a s + data, ck_b := ck_b s + (ck_a s + data),
        payload_length := ucast data\<rparr>, False)"
  by (simp add: gpsNewFrameUBLOX_def Let_def)

lemma gpsNewFrameUBLOX_step5:
  "step s = 5 \<Longrightarrow> gpsNewFrameUBLOX ext data s =
     (let len = payload_length s OR push_bit 8 (ucast data);
          s1 = s\<lparr>step := 6, ck_a := ck_a s + data, ck_b := ck_b s + (ck_a s + data),
                 payload_length := len\<rparr>
      in if unat len > MAX_UBLOX_PAYLOAD_SIZE
         then (s1\<lparr>errors := errors s + 1, step := 0\<rparr>, False)
         else if len = 0 then (s1\<lparr>payload_counter := 0, step := 7\<rparr>, False)
         else (s1\<lparr>payload_counter := 0\<rparr>, False))"
  by (simp add: gpsNewFrameUBLOX_def Let_def)

lemma gpsNewFrameUBLOX_step6:
  "step s = 6 \<Longrightarrow> gpsNewFrameUBLOX ext data s =
     (let s1 = s\<lparr>ck_a := ck_a s + data, ck_b := ck_b s + (ck_a s + data)\<rparr>;
          s2 = (if unat (payload_counter s) < MAX_UBLOX_PAYLOAD_SIZE
                then s1\<lparr>buffer := (buffer s)(unat (payload_counter s) := data)\<rparr>
                else s1);
          s3 = (if uint (payload_counter s) = uint (payload_length s) - 1
                then s2\<lparr>step := 7\<rparr> else s2)
      in (s3\<lparr>payload_counter := payload_counter s + 1\<rparr>, False))"
  by (simp add: gpsNewFrameUBLOX_def Let_def)

lemma gpsNewFrameUBLOX_step7:
  "step s = 7 \<Longrightarrow> gpsNewFrameUBLOX ext data s =
     (if ck_a s \<noteq> data
      then (s\<lparr>skip_packet := True, errors := errors s + 1, step := 0\<rparr>, False)
      else (s\<lparr>step := 8\<rparr>, False))"
  by (simp add: gpsNewFrameUBLOX_def Let_def)

lemma gpsNewFrameUBLOX_step8:
  "step s = 8 \<Longrightarrow> gpsNewFrameUBLOX ext data s =
     (if ck_b s \<noteq> data then (s\<lparr>step := 0, errors := errors s + 1\<rparr>, False)
      else if skip_packet s then (s\<lparr>step := 0, packetCount := packetCount s + 1\<rparr>, False)
      else gpsParceFrameUBLOX ext (s\<lparr>step := 0, packetCount := packetCount s + 1\<rparr>))"
  by (simp add: gpsNewFrameUBLOX_def Let_def)

lemma gpsNewFrameUBLOX_step_other:
  "step s \<noteq> 0 \<Longrightarrow> step s \<noteq> 1 \<Longrightarrow> step s \<noteq> 2 \<Longrightarrow> step s \<noteq> 3 \<Longrightarrow> step s \<noteq> 4 \<Longrightarrow>
   step s \<noteq> 5 \<Longrightarrow> step s \<noteq> 6 \<Longrightarrow> step s \<noteq> 7 \<Longrightarrow> step s \<noteq> 8 \<Longrightarrow>
   gpsNewFrameUBLOX ext data s = (s, False)"
  by (simp add: gpsNewFrameUBLOX_def)

lemma step_cases:
  obtains (0) "step s = 0" | (1) "step s = 1" | (2) "step s = 2" | (3) "step s = 3"
  | (4) "step s = 4" | (5) "step s = 5" | (6) "step s = 6" | (7) "step s = 7"
  | (8) "step s = 8"
  | (other) "step s \<noteq> 0" "step s \<noteq> 1" "step s \<noteq> 2" "step s \<noteq> 3" "step s \<noteq> 4"
      "step s \<noteq> 5" "step s \<noteq> 6" "step s \<noteq> 7" "step s \<noteq> 8"
  by blast

text \<open>The last byte of a frame: the only place where the decoder calls the mapper.\<close>

lemma gpsNewFrameUBLOX_dispatch:
  "step s = 8 \<Longrightarrow> ck_b s = data \<Longrightarrow> \<not> skip_packet s \<Longrightarrow>
   gpsNewFrameUBLOX ext data s
     = gpsParceFrameUBLOX ext (s\<lparr>step := 0, packetCount := packetCount s + 1\<rparr>)"
  by (simp add: gpsNewFrameUBLOX_step8)

lemma gpsNewFrameUBLOX_other:
  assumes "\<not> (step s = 8 \<and> ck_b s = data \<and> \<not> skip_packet s)"
  shows "snd (gpsNewFrameUBLOX ext data s) = False
    \<and> new_position (fst (gpsNewFrameUBLOX ext data s)) = new_position s
    \<and> new_speed (fst (gpsNewFrameUBLOX ext data s)) = new_speed s
    \<and> gpsSol (fst (gpsNewFrameUBLOX ext data s)) = gpsSol s
    \<and> ack_state (fst (gpsNewFrameUBLOX ext data s)) = ack_state s"
proof (cases s rule: step_cases)
  case 0
  then show ?thesis by (simp add: gpsNewFrameUBLOX_step0)
next
  case 1
  then show ?thesis by (simp add: gpsNewFrameUBLOX_step1)
next
  case 2
  then show ?thesis by (simp add: gpsNewFrameUBLOX_step2)
next
  case 3
  then show ?thesis by (simp add: gpsNewFrameUBLOX_step3)
next
  case 4
  then show ?thesis by (simp add: gpsNewFrameUBLOX_step4)
next
  case 5
  then show ?thesis by (simp add: gpsNewFrameUBLOX_step5 Let_def)
next
  case 6
  then show ?thesis by (simp add: gpsNewFrameUBLOX_step6 Let_def)
next
  case 7
  then show ?thesis by (simp add: gpsNewFrameUBLOX_step7)
next
  case 8
  with assms show ?thesis by (auto simp: gpsNewFrameUBLOX_step8)
next
  case other
  then show ?thesis by (simp add: gpsNewFrameUBLOX_step_other)
qed

lemma latches_gpsParceFrameUBLOX:
  "\<not> (new_position s \<and> new_speed s) \<Longrightarrow>
   \<not> (new_position (fst (gpsParceFrameUBLOX ext s)) \<and> new_speed (fst (gpsParceFrameUBLOX ext s)))"
  using gpsParceFrameUBLOX_latches [of ext s] by blast

lemma latches_gpsNewFrameUBLOX:
  assumes "\<not> (new_position s \<and> new_speed s)"
  shows "\<not> (new_position (fst (gpsNewFrameUBLOX ext data s))
          \<and> new_speed (fst (gpsNewFrameUBLOX ext data s)))"
proof (cases "step s = 8 \<and> ck_b s = data \<and> \<not> skip_packet s")
  case True
  then have "gpsNewFrameUBLOX ext data s
     = gpsParceFrameUBLOX ext (s\<lparr>step := 0, packetCount := packetCount s + 1\<rparr>)"
    by (simp add: gpsNewFrameUBLOX_dispatch)
  with assms latches_gpsParceFrameUBLOX [of "s\<lparr>step := 0, packetCount := packetCount s + 1\<rparr>" ext]
  show ?thesis by simp
next
  case False
  with assms show ?thesis
    by (simp add: gpsNewFrameUBLOX_other)
qed

lemma sendConfigMessageUBLOX_fields:
  "new_position (sendConfigMessageUBLOX s) = new_position s"
  "new_speed (sendConfigMessageUBLOX s) = new_speed s"
  "step (sendConfigMessageUBLOX s) = step s"
  "skip_packet (sendConfigMessageUBLOX s) = skip_packet s"
  "buffer (sendConfigMessageUBLOX s) = buffer s"
  unfolding sendConfigMessageUBLOX_def
  by (simp_all add: Let_def split: prod.splits)

lemma reachable_latches: "reachable ext s \<Longrightarrow> \<not> (new_position s \<and> new_speed s)"
proof (induction rule: reachable.induct)
  case (reach_init s)
  then show ?case by (simp add: initial_def)
next
  case (reach_byte s data)
  from reach_byte.IH show ?case by (rule latches_gpsNewFrameUBLOX)
next
  case (reach_send s sb)
  then show ?case by (simp add: sendConfigMessageUBLOX_fields)
qed

lemma decoder_inv_gpsNewFrameUBLOX:
  assumes "step s = 0 \<or> \<not> skip_packet s"
  shows "step (fst (gpsNewFrameUBLOX ext data s)) = 0
         \<or> \<not> skip_packet (fst (gpsNewFrameUBLOX ext data s))"
proof (cases s rule: step_cases)
  case 0
  then show ?thesis by (simp add: gpsNewFrameUBLOX_step0)
next
  case 1
  with assms show ?thesis by (simp add: gpsNewFrameUBLOX_step1)
next
  case 2
  with assms show ?thesis by (simp add: gpsNewFrameUBLOX_step2)
next
  case 3
  with assms show ?thesis by (simp add: gpsNewFrameUBLOX_step3)
next
  case 4
  with assms show ?thesis by (simp add: gpsNewFrameUBLOX_step4)
next
  case 5
  with assms show ?thesis by (simp add: gpsNewFrameUBLOX_step5 Let_def)
next
  case 6
  with assms show ?thesis by (simp add: gpsNewFrameUBLOX_step6 Let_def)
next
  case 7
  with assms show ?thesis by (simp add: gpsNewFrameUBLOX_step7)
next
  case 8
  then show ?thesis by (simp add: gpsNewFrameUBLOX_step8 gpsParceFrameUBLOX_decoder_fields)
next
  case other
  with assms show ?thesis by (simp add: gpsNewFrameUBLOX_step_other)
qed

lemma reachable_decoder_inv: "reachable ext s \<Longrightarrow> step s = 0 \<or> \<not> skip_packet s"
proof (induction rule: reachable.induct)
  case (reach_init s)
  then show ?case by (simp add: initial_def)
next
  case (reach_byte s data)
  from reach_byte.IH show ?case by (rule decoder_inv_gpsNewFrameUBLOX)
next
  case (reach_send s sb)
  then show ?case by (simp add: sendConfigMessageUBLOX_fields)
qed

lemma accept_frames_no_position:
  "\<not> new_position s \<Longrightarrow> \<forall>f\<in>set fs. f_id f \<noteq> MSG_POSLLH \<and> f_id f \<noteq> MSG_PVT \<Longrightarrow>
   True \<notin> set (accept_frames ext fs s)"
proof (induction fs arbitrary: s)
  case Nil
  then show ?case by simp
next
  case (Cons f fs)
  let ?s = "s\<lparr>msg_class := f_class f, msg_id := f_id f, payload_length := f_length f,
          buffer := f_payload f\<rparr>"
  from Cons.prems have id: "msg_id ?s \<noteq> MSG_POSLLH" "msg_id ?s \<noteq> MSG_PVT" and np: "\<not> new_position ?s"
    by simp_all
  have a: "\<not> snd (gpsParceFrameUBLOX ext ?s) \<and> \<not> new_position (fst (gpsParceFrameUBLOX ext ?s))"
    using id np ubx_switch_latches(1) [of ext ?s]
    by (auto simp: gpsParceFrameUBLOX_def split: option.splits)
  with Cons.IH [of "fst (accept_frame ext f s)"] Cons.prems show ?case
    by (simp add: accept_frame_def)
qed

lemma accept_frames_no_speed:
  "\<not> new_speed s \<Longrightarrow> \<forall>f\<in>set fs. f_id f \<noteq> MSG_VELNED \<and> f_id f \<noteq> MSG_PVT \<Longrightarrow>
   True \<notin> set (accept_frames ext fs s)"
proof (induction fs arbitrary: s)
  case Nil
  then show ?case by simp
next
  case (Cons f fs)
  let ?s = "s\<lparr>msg_class := f_class f, msg_id := f_id f, payload_length := f_length f,
          buffer := f_payload f\<rparr>"
  from Cons.prems have id: "msg_id ?s \<noteq> MSG_VELNED" "msg_id ?s \<noteq> MSG_PVT" and np: "\<not> new_speed ?s"
    by simp_all
  have a: "\<not> snd (gpsParceFrameUBLOX ext ?s) \<and> \<not> new_speed (fst (gpsParceFrameUBLOX ext ?s))"
    using id np ubx_switch_latches(2) [of ext ?s]
    by (auto simp: gpsParceFrameUBLOX_def split: option.splits)
  with Cons.IH [of "fst (accept_frame ext f s)"] Cons.prems show ?case
    by (simp add: accept_frame_def)
qed


text \<open>The two length bytes combine to the little-endian 16-bit value.\<close>

lemma unat_payload_length: "unat ((ucast (lo :: 8 word) :: 16 word) OR push_bit 8 (ucast (hi :: 8 word))) = unat lo + 256 * unat hi"
proof -
  have lo: "unat lo < 256" and hi: "unat hi < 256"
    using unsigned_less [of lo] unsigned_less [of hi] by simp_all
  have d: "(ucast lo :: 16 word) AND push_bit 8 (ucast hi) = 0"
    by (rule bit_word_eqI) (auto simp: bit_simps dest: bit_imp_le_length)
  have e: "(ucast lo :: 16 word) OR push_bit 8 (ucast hi) = ucast lo + push_bit 8 (ucast hi)"
    using d by (simp add: disjunctive_add_eq_or)
  have u1: "unat (ucast lo :: 16 word) = unat lo"
    using lo by (simp add: unsigned_ucast_eq take_bit_nat_eq_self)
  have u2: "unat (ucast hi :: 16 word) = unat hi"
    using hi by (simp add: unsigned_ucast_eq take_bit_nat_eq_self)
  have u3: "unat (push_bit 8 (ucast hi :: 16 word)) = 256 * unat hi"
  proof -
    have "unat (ucast hi * 256 :: 16 word) = unat (ucast hi :: 16 word) * unat (256 :: 16 word)"
      using hi by (intro unat_mult_lem [THEN iffD1]) (simp add: u2)
    then show ?thesis
      by (simp add: push_bit_eq_mult u2)
  qed
  show ?thesis
    using lo hi by (simp add: e unat_word_ariths u1 u3)
qed

lemma reachable_feed: "reachable ext s \<Longrightarrow> reachable ext (feed ext ds s)"
  by (induction ds arbitrary: s) (auto intro: reach_byte)

subsection \<open>Running the decoder on concrete bytes\<close>

lemmas step_eqs = gpsNewFrameUBLOX_step0 gpsNewFrameUBLOX_step1 gpsNewFrameUBLOX_step2
  gpsNewFrameUBLOX_step3 gpsNewFrameUBLOX_step4 gpsNewFrameUBLOX_step5 gpsNewFrameUBLOX_step6
  gpsNewFrameUBLOX_step7 gpsNewFrameUBLOX_step8

lemma initial_ubx_zero: "initial ubx_zero"
  by (simp add: initial_def ubx_zero_def)

lemma ack_frame_state:
  "feed ext_sample (butlast ack_frame_bytes) ubx_zero
     = ubx_zero\<lparr>ck_a := 0x32, ck_b := 0x5B, step := 8, msg_id := 0x01, payload_length := 2,
                payload_counter := 2, msg_class := 0x05, buffer := (\<lambda>i. 0)(0 := 0x06, 1 := 0x24)\<rparr>"
  by (simp add: ack_frame_bytes_def step_eqs ubx_zero_def ubx_protocol_bytes Let_def
      MAX_UBLOX_PAYLOAD_SIZE_def)

lemma feed_append: "feed ext (xs @ ys) s = feed ext ys (feed ext xs s)"
  by (induction xs arbitrary: s) simp_all



subsection \<open>Epoch completion\<close>

lemma gpsParceFrameUBLOX_no_position:
  assumes "msg_id s \<noteq> MSG_POSLLH" "msg_id s \<noteq> MSG_PVT" "\<not> new_position s"
  shows "\<not> snd (gpsParceFrameUBLOX ext s) \<and> \<not> new_position (fst (gpsParceFrameUBLOX ext s))"
  using assms ubx_switch_latches(1) [of ext s]
  by (auto simp: gpsParceFrameUBLOX_def split: option.splits)

lemma gpsParceFrameUBLOX_no_speed:
  assumes "msg_id s \<noteq> MSG_VELNED" "msg_id s \<noteq> MSG_PVT" "\<not> new_speed s"
  shows "\<not> snd (gpsParceFrameUBLOX ext s) \<and> \<not> new_speed (fst (gpsParceFrameUBLOX ext s))"
  using assms ubx_switch_latches(2) [of ext s]
  by (auto simp: gpsParceFrameUBLOX_def split: option.splits)

lemma feed_parsed_no_position:
  "\<not> new_position s \<Longrightarrow>
   \<forall>i\<in>set (dispatched ext ds s). i \<noteq> MSG_POSLLH \<and> i \<noteq> MSG_PVT \<Longrightarrow>
   True \<notin> set (feed_parsed ext ds s)"
proof (induction ds arbitrary: s)
  case Nil
  then show ?case by simp
next
  case (Cons d ds)
  have a: "\<not> snd (gpsNewFrameUBLOX ext d s) \<and> \<not> new_position (fst (gpsNewFrameUBLOX ext d s))"
  proof (cases "step s = 8 \<and> ck_b s = d \<and> \<not> skip_packet s")
    case True
    with Cons.prems have "msg_id s \<noteq> MSG_POSLLH" "msg_id s \<noteq> MSG_PVT"
      by simp_all
    with Cons.prems(1) True
      gpsParceFrameUBLOX_no_position [of "s\<lparr>step := 0, packetCount := packetCount s + 1\<rparr>" ext]
    show ?thesis
      by (simp add: gpsNewFrameUBLOX_dispatch)
  next
    case False
    with Cons.prems(1) show ?thesis
      by (simp add: gpsNewFrameUBLOX_other)
  qed
  from Cons.prems(2) have "\<forall>i\<in>set (dispatched ext ds (fst (gpsNewFrameUBLOX ext d s))).
      i \<noteq> MSG_POSLLH \<and> i \<noteq> MSG_PVT"
    by simp
  with a Cons.IH [of "fst (gpsNewFrameUBLOX ext d s)"] show ?case
    by simp
qed

lemma feed_parsed_no_speed:
  "\<not> new_speed s \<Longrightarrow>
   \<forall>i\<in>set (dispatched ext ds s). i \<noteq> MSG_VELNED \<and> i \<noteq> MSG_PVT \<Longrightarrow>
   True \<notin> set (feed_parsed ext ds s)"
proof (induction ds arbitrary: s)
  case Nil
  then show ?case by simp
next
  case (Cons d ds)
  have a: "\<not> snd (gpsNewFrameUBLOX ext d s) \<and> \<not> new_speed (fst (gpsNewFrameUBLOX ext d s))"
  proof (cases "step s = 8 \<and> ck_b s = d \<and> \<not> skip_packet s")
    case True
    with Cons.prems have "msg_id s \<noteq> MSG_VELNED" "msg_id s \<noteq> MSG_PVT"
      by simp_all
    with Cons.prems(1) True
      gpsParceFrameUBLOX_no_speed [of "s\<lparr>step := 0, packetCount := packetCount s + 1\<rparr>" ext]
    show ?thesis
      by (simp add: gpsNewFrameUBLOX_dispatch)
  next
    case False
    with Cons.prems(1) show ?thesis
      by (simp add: gpsNewFrameUBLOX_other)
  qed
  from Cons.prems(2) have "\<forall>i\<in>set (dispatched ext ds (fst (gpsNewFrameUBLOX ext d s))).
      i \<noteq> MSG_VELNED \<and> i \<noteq> MSG_PVT"
    by simp
  with a Cons.IH [of "fst (gpsNewFrameUBLOX ext d s)"] show ?case
    by simp
qed



text \<open>
  What the two latches guarantee.  Between frames the latches are never both set.  For
  an accepted frame the mapper reports epoch-complete exactly when, after the switch,
  the position latch and the velocity latch are both set, and it has cleared both when
  it reports so.  A frame with the PVT id makes it report at once.  Starting with both
  latches clear (as they are initially and after every report), a sequence of accepted
  frames none of which has the id of the position or of the PVT message, or none of
  which has the id of the velocity or of the PVT message, never makes it report; the
  same holds for every byte stream in which the decoder hands no frame with such an id
  to the mapper.  The ids are those the switch compares: the class of a frame plays no
  part here, so this bounds the reports by the ids received, not by the position and
  velocity frames received.
\<close>

theorem epoch_complete_latches:
  "(reachable ext s \<longrightarrow> \<not> (new_position s \<and> new_speed s))
   \<and> (\<not> (new_position s \<and> new_speed s) \<longrightarrow>
        snd (gpsParceFrameUBLOX ext s)
          = (new_position (case ubx_switch ext s of None \<Rightarrow> s | Some s1 \<Rightarrow> s1)
             \<and> new_speed (case ubx_switch ext s of None \<Rightarrow> s | Some s1 \<Rightarrow> s1)))
   \<and> (snd (gpsParceFrameUBLOX ext s) \<longrightarrow>
        \<not> new_position (fst (gpsParceFrameUBLOX ext s))
        \<and> \<not> new_speed (fst (gpsParceFrameUBLOX ext s)))
   \<and> (msg_id s = MSG_PVT \<longrightarrow> snd (gpsParceFrameUBLOX ext s))
   \<and> (\<not> new_position s \<and> \<not> new_speed s
        \<and> ((\<forall>f\<in>set fs. f_id f \<noteq> MSG_POSLLH \<and> f_id f \<noteq> MSG_PVT)
           \<or> (\<forall>f\<in>set fs. f_id f \<noteq> MSG_VELNED \<and> f_id f \<noteq> MSG_PVT))
       \<longrightarrow> True \<notin> set (accept_frames ext fs s))
   \<and> (\<not> new_position s \<and> \<not> new_speed s
        \<and> ((\<forall>i\<in>set (dispatched ext ds s). i \<noteq> MSG_POSLLH \<and> i \<noteq> MSG_PVT)
           \<or> (\<forall>i\<in>set (dispatched ext ds s). i \<noteq> MSG_VELNED \<and> i \<noteq> MSG_PVT))
       \<longrightarrow> True \<notin> set (feed_parsed ext ds s))"
proof (intro conjI impI)
  assume "reachable ext s"
  then show "\<not> (new_position s \<and> new_speed s)"
    by (rule reachable_latches)
next
  assume "\<not> (new_position s \<and> new_speed s)"
  then show "snd (gpsParceFrameUBLOX ext s)
          = (new_position (case ubx_switch ext s of None \<Rightarrow> s | Some s1 \<Rightarrow> s1)
             \<and> new_speed (case ubx_switch ext s of None \<Rightarrow> s | Some s1 \<Rightarrow> s1))"
    by (auto simp: gpsParceFrameUBLOX_def split: option.splits)
next
  assume "snd (gpsParceFrameUBLOX ext s)"
  then show "\<not> new_position (fst (gpsParceFrameUBLOX ext s))"
    and "\<not> new_speed (fst (gpsParceFrameUBLOX ext s))"
    by (auto simp: gpsParceFrameUBLOX_def split: option.splits if_splits)
next
  assume "msg_id s = MSG_PVT"
  then show "snd (gpsParceFrameUBLOX ext s)"
    by (simp add: gpsParceFrameUBLOX_def ubx_switch_simps case_latches)
next
  assume "\<not> new_position s \<and> \<not> new_speed s
        \<and> ((\<forall>f\<in>set fs. f_id f \<noteq> MSG_POSLLH \<and> f_id f \<noteq> MSG_PVT)
           \<or> (\<forall>f\<in>set fs. f_id f \<noteq> MSG_VELNED \<and> f_id f \<noteq> MSG_PVT))"
  then show "True \<notin> set (accept_frames ext fs s)"
    using accept_frames_no_position [of s fs ext] accept_frames_no_speed [of s fs ext]
    by blast
next
  assume "\<not> new_position s \<and> \<not> new_speed s
        \<and> ((\<forall>i\<in>set (dispatched ext ds s). i \<noteq> MSG_POSLLH \<and> i \<noteq> MSG_PVT)
           \<or> (\<forall>i\<in>set (dispatched ext ds s). i \<noteq> MSG_VELNED \<and> i \<noteq> MSG_PVT))"
  then show "True \<notin> set (feed_parsed ext ds s)"
    using feed_parsed_no_position [of s ext ds] feed_parsed_no_speed [of s ext ds]
    by blast
qed

theorem epoch_complete_latches_example:
  "reachable ext_sample ubx_zero
   \<and> \<not> (new_position ubx_zero \<and> new_speed ubx_zero)
   \<and> snd (gpsParceFrameUBLOX ext_sample (ubx_zero\<lparr>msg_id := MSG_PVT\<rparr>))
   \<and> \<not> new_position (fst (gpsParceFrameUBLOX ext_sample (ubx_zero\<lparr>msg_id := MSG_PVT\<rparr>)))
   \<and> \<not> new_speed (fst (gpsParceFrameUBLOX ext_sample (ubx_zero\<lparr>msg_id := MSG_PVT\<rparr>)))
   \<and> True \<notin> set (accept_frames ext_sample
        [\<lparr>f_class = CLASS_NAV, f_id = MSG_POSLLH, f_length = 28, f_payload = (\<lambda>i. 0)\<rparr>,
         \<lparr>f_class = CLASS_NAV, f_id = MSG_STATUS, f_length = 16, f_payload = (\<lambda>i. 0)\<rparr>,
         \<lparr>f_class = CLASS_NAV, f_id = MSG_POSLLH, f_length = 28, f_payload = (\<lambda>i. 0)\<rparr>]
        ubx_zero)
   \<and> accept_frames ext_sample
        [\<lparr>f_class = CLASS_NAV, f_id = MSG_POSLLH, f_length = 28, f_payload = (\<lambda>i. 0)\<rparr>,
         \<lparr>f_class = CLASS_NAV, f_id = MSG_VELNED, f_length = 36, f_payload = (\<lambda>i. 0)\<rparr>]
        ubx_zero = [False, True]
   \<and> dispatched ext_sample cfg_inf_frame ubx_zero = [MSG_POSLLH]
   \<and> True \<notin> set (feed_parsed ext_sample cfg_inf_frame ubx_zero)"
proof -
  let ?fs = "[\<lparr>f_class = CLASS_NAV, f_id = MSG_POSLLH, f_length = 28, f_payload = (\<lambda>i. 0)\<rparr>,
         \<lparr>f_class = CLASS_NAV, f_id = MSG_STATUS, f_length = 16, f_payload = (\<lambda>i. 0)\<rparr>,
         \<lparr>f_class = CLASS_NAV, f_id = MSG_POSLLH, f_length = 28, f_payload = (\<lambda>i. 0)\<rparr>]"
  have r: "reachable ext_sample ubx_zero"
    by (intro reach_init initial_ubx_zero)
  note t = epoch_complete_latches [of ext_sample ubx_zero ?fs]
  note p = epoch_complete_latches
    [of ext_sample "ubx_zero\<lparr>msg_id := MSG_PVT\<rparr>"]
  from t r have l: "\<not> (new_position ubx_zero \<and> new_speed ubx_zero)"
    by blast
  have z: "\<not> new_position ubx_zero \<and> \<not> new_speed ubx_zero"
    by (simp add: ubx_zero_def)
  have ids: "\<forall>f\<in>set ?fs. f_id f \<noteq> MSG_VELNED \<and> f_id f \<noteq> MSG_PVT"
    by (simp add: ubx_protocol_bytes)
  from t z ids have n: "True \<notin> set (accept_frames ext_sample ?fs ubx_zero)"
    by blast
  have "msg_id (ubx_zero\<lparr>msg_id := MSG_PVT\<rparr>) = MSG_PVT"
    by simp
  with p have f: "snd (gpsParceFrameUBLOX ext_sample (ubx_zero\<lparr>msg_id := MSG_PVT\<rparr>))"
    by blast
  with p have c: "\<not> new_position (fst (gpsParceFrameUBLOX ext_sample (ubx_zero\<lparr>msg_id := MSG_PVT\<rparr>)))"
    "\<not> new_speed (fst (gpsParceFrameUBLOX ext_sample (ubx_zero\<lparr>msg_id := MSG_PVT\<rparr>)))"
    by blast+
  have e: "accept_frames ext_sample
        [\<lparr>f_class = CLASS_NAV, f_id = MSG_POSLLH, f_length = 28, f_payload = (\<lambda>i. 0)\<rparr>,
         \<lparr>f_class = CLASS_NAV, f_id = MSG_VELNED, f_length = 36, f_payload = (\<lambda>i. 0)\<rparr>]
        ubx_zero = [False, True]"
    by (simp add: accept_frame_def gpsParceFrameUBLOX_def ubx_switch_simps case_latches z)
  note b = epoch_complete_latches
    [of ext_sample ubx_zero _ cfg_inf_frame]
  have g: "dispatched ext_sample cfg_inf_frame ubx_zero = [MSG_POSLLH]"
    by (simp add: cfg_inf_frame_def step_eqs ubx_zero_def ubx_protocol_bytes Let_def
        MAX_UBLOX_PAYLOAD_SIZE_def gpsParceFrameUBLOX_decoder_fields)
  then have "\<forall>i\<in>set (dispatched ext_sample cfg_inf_frame ubx_zero).
      i \<noteq> MSG_VELNED \<and> i \<noteq> MSG_PVT"
    by (simp add: ubx_protocol_bytes)
  with b z have h: "True \<notin> set (feed_parsed ext_sample cfg_inf_frame ubx_zero)"
    by blast
  from r l f c n e g h show ?thesis
    by blast
qed

subsection \<open>Well-formed frames\<close>

lemma unat_of_nat_u16: "k \<le> 256 \<Longrightarrow> unat (of_nat k :: u16) = k"
  by (simp add: unat_of_nat)

lemma uint_of_nat_u16: "k \<le> 256 \<Longrightarrow> uint (of_nat k :: u16) = int k"
  by (simp add: uint_nat unat_of_nat)

lemma feed_payload:
  assumes "step s = 6" "payload_counter s = of_nat k" "payload_length s = of_nat L"
    "k + length p = L" "p \<noteq> []" "L \<le> 256"
  shows "feed ext p s =
      s\<lparr>ck_a := fst (fold ck_step p (ck_a s, ck_b s)),
        ck_b := snd (fold ck_step p (ck_a s, ck_b s)),
        buffer := (\<lambda>j. if k \<le> j \<and> j < L then p ! (j - k) else buffer s j),
        payload_counter := of_nat L, step := 7\<rparr>
    \<and> feed_parsed ext p s = replicate (length p) False
    \<and> dispatched ext p s = []"
  using assms
proof (induction p arbitrary: s k)
  case Nil
  then show ?case by simp
next
  case (Cons x xs)
  from Cons.prems have k: "k < 256" "k < L" "k \<le> 256" "L \<le> 256"
    by simp_all
  have uk: "unat (payload_counter s) = k" "uint (payload_counter s) = int k"
    "uint (payload_length s) = int L"
    using Cons.prems k by (simp_all add: unat_of_nat_u16 uint_of_nat_u16)
  let ?s1 = "s\<lparr>ck_a := ck_a s + x, ck_b := ck_b s + (ck_a s + x),
               buffer := (buffer s)(k := x)\<rparr>"
  show ?case
  proof (cases "xs = []")
    case True
    with Cons.prems have L: "L = Suc k"
      by simp
    have c: "payload_counter s + 1 = of_nat L"
      using Cons.prems(2) L by simp
    have st: "gpsNewFrameUBLOX ext x s = (?s1\<lparr>step := 7, payload_counter := of_nat L\<rparr>, False)"
      using uk k L
      by (simp add: gpsNewFrameUBLOX_step6 [OF Cons.prems(1)] Let_def MAX_UBLOX_PAYLOAD_SIZE_def c)
    have b: "(\<lambda>j. if k \<le> j \<and> j < L then (x # xs) ! (j - k) else buffer s j) = (buffer s)(k := x)"
      using L by (auto simp: fun_eq_iff)
    show ?thesis
      using True Cons.prems(1)
      by (simp add: st b ck_step_def)
  next
    case False
    then have nl: "int k \<noteq> int L - 1"
      using Cons.prems by (cases xs) auto
    let ?s2 = "?s1\<lparr>payload_counter := of_nat (Suc k)\<rparr>"
    have c: "payload_counter s + 1 = of_nat (Suc k)"
      using Cons.prems(2) by simp
    have st: "gpsNewFrameUBLOX ext x s = (?s2, False)"
      using uk k nl
      by (simp add: gpsNewFrameUBLOX_step6 [OF Cons.prems(1)] Let_def MAX_UBLOX_PAYLOAD_SIZE_def c)
    have ih: "feed ext xs ?s2 =
        ?s2\<lparr>ck_a := fst (fold ck_step xs (ck_a ?s2, ck_b ?s2)),
            ck_b := snd (fold ck_step xs (ck_a ?s2, ck_b ?s2)),
            buffer := (\<lambda>j. if Suc k \<le> j \<and> j < L then xs ! (j - Suc k) else buffer ?s2 j),
            payload_counter := of_nat L, step := 7\<rparr>
      \<and> feed_parsed ext xs ?s2 = replicate (length xs) False
      \<and> dispatched ext xs ?s2 = []"
      using Cons.prems False by (intro Cons.IH) simp_all
    have b: "(\<lambda>j. if Suc k \<le> j \<and> j < L then xs ! (j - Suc k) else buffer ?s2 j)
        = (\<lambda>j. if k \<le> j \<and> j < L then (x # xs) ! (j - k) else buffer s j)"
      using k by (auto simp: fun_eq_iff nth_Cons' Suc_diff_le)
    have f: "fold ck_step (x # xs) (ck_a s, ck_b s) = fold ck_step xs (ck_a ?s2, ck_b ?s2)"
      by (simp add: ck_step_def)
    have "feed ext (x # xs) s = feed ext xs ?s2"
      by (simp add: st)
    also have "\<dots> = ?s2\<lparr>ck_a := fst (fold ck_step xs (ck_a ?s2, ck_b ?s2)),
            ck_b := snd (fold ck_step xs (ck_a ?s2, ck_b ?s2)),
            buffer := (\<lambda>j. if Suc k \<le> j \<and> j < L then xs ! (j - Suc k) else buffer ?s2 j),
            payload_counter := of_nat L, step := 7\<rparr>"
      using ih by blast
    also have "\<dots> = s\<lparr>ck_a := fst (fold ck_step (x # xs) (ck_a s, ck_b s)),
        ck_b := snd (fold ck_step (x # xs) (ck_a s, ck_b s)),
        buffer := (\<lambda>j. if k \<le> j \<and> j < L then (x # xs) ! (j - k) else buffer s j),
        payload_counter := of_nat L, step := 7\<rparr>"
      by (simp only: b f) simp
    finally have 1: "feed ext (x # xs) s = s\<lparr>ck_a := fst (fold ck_step (x # xs) (ck_a s, ck_b s)),
        ck_b := snd (fold ck_step (x # xs) (ck_a s, ck_b s)),
        buffer := (\<lambda>j. if k \<le> j \<and> j < L then (x # xs) ! (j - k) else buffer s j),
        payload_counter := of_nat L, step := 7\<rparr>" .
    have 2: "feed_parsed ext (x # xs) s = replicate (length (x # xs)) False"
      using ih by (simp add: st)
    have 3: "dispatched ext (x # xs) s = []"
      using ih Cons.prems(1) by (simp add: st)
    from 1 2 3 show ?thesis
      by blast
  qed
qed


lemma feed_parsed_append:
  "feed_parsed ext (xs @ ys) s = feed_parsed ext xs s @ feed_parsed ext ys (feed ext xs s)"
  by (induction xs arbitrary: s) simp_all

lemma dispatched_append:
  "dispatched ext (xs @ ys) s = dispatched ext xs s @ dispatched ext ys (feed ext xs s)"
  by (induction xs arbitrary: s) simp_all

lemma length_bytes_u16:
  assumes "L \<le> 256"
  shows "ucast (of_nat L :: u8) OR push_bit 8 (ucast (of_nat (L div 256) :: u8)) = (of_nat L :: u16)"
proof -
  have "unat (ucast (of_nat L :: u8) OR push_bit 8 (ucast (of_nat (L div 256) :: u8)) :: u16)
      = unat (of_nat L :: u8) + 256 * unat (of_nat (L div 256) :: u8)"
    by (rule unat_payload_length)
  also have "\<dots> = L mod 256 + 256 * (L div 256)"
    using assms by (simp add: unat_of_nat)
  also have "\<dots> = L"
    by simp
  also have "\<dots> = unat (of_nat L :: u16)"
    using assms by (simp add: unat_of_nat_u16)
  finally show ?thesis
    by (simp only: word_unat_eq_iff)
qed

lemma feed_header:
  assumes "step s = 0" "L \<le> 256"
  shows "feed ext [PREAMBLE1, PREAMBLE2, cls, mid, of_nat L, of_nat (L div 256)] s =
      s\<lparr>skip_packet := False, step := (if L = 0 then 7 else 6), msg_class := cls, msg_id := mid,
        ck_a := fst (fold ck_step [cls, mid, of_nat L, of_nat (L div 256)] (0, 0)),
        ck_b := snd (fold ck_step [cls, mid, of_nat L, of_nat (L div 256)] (0, 0)),
        payload_length := of_nat L, payload_counter := 0\<rparr>
    \<and> feed_parsed ext [PREAMBLE1, PREAMBLE2, cls, mid, of_nat L, of_nat (L div 256)] s
        = [False, False, False, False, False, False]
    \<and> dispatched ext [PREAMBLE1, PREAMBLE2, cls, mid, of_nat L, of_nat (L div 256)] s = []"
proof -
  let ?lo = "of_nat L :: u8" and ?hi = "of_nat (L div 256) :: u8"
  let ?s1 = "s\<lparr>skip_packet := False, step := 1\<rparr>"
  let ?s2 = "?s1\<lparr>step := 2\<rparr>"
  let ?s3 = "?s2\<lparr>step := 3, msg_class := cls, ck_a := cls, ck_b := cls\<rparr>"
  let ?s4 = "?s3\<lparr>step := 4, ck_a := cls + mid, ck_b := cls + (cls + mid), msg_id := mid\<rparr>"
  let ?s5 = "?s4\<lparr>step := 5, ck_a := cls + mid + ?lo, ck_b := cls + (cls + mid) + (cls + mid + ?lo),
      payload_length := ucast ?lo\<rparr>"
  let ?s6 = "?s5\<lparr>step := (if L = 0 then 7 else 6), ck_a := cls + mid + ?lo + ?hi,
      ck_b := cls + (cls + mid) + (cls + mid + ?lo) + (cls + mid + ?lo + ?hi),
      payload_length := of_nat L, payload_counter := 0\<rparr>"
  have z: "((of_nat L :: u16) = 0) = (L = 0)"
    using assms(2) unat_of_nat_u16 [of L] by (auto simp: unat_eq_0 [symmetric] simp del: unat_eq_0)
  have m: "\<not> MAX_UBLOX_PAYLOAD_SIZE < unat (of_nat L :: u16)"
    using assms(2) by (simp add: unat_of_nat_u16 MAX_UBLOX_PAYLOAD_SIZE_def)
  have 1: "gpsNewFrameUBLOX ext PREAMBLE1 s = (?s1, False)"
    using assms(1) by (simp add: gpsNewFrameUBLOX_step0)
  have 2: "gpsNewFrameUBLOX ext PREAMBLE2 ?s1 = (?s2, False)"
    by (simp add: gpsNewFrameUBLOX_step1)
  have 3: "gpsNewFrameUBLOX ext cls ?s2 = (?s3, False)"
    by (simp add: gpsNewFrameUBLOX_step2)
  have 4: "gpsNewFrameUBLOX ext mid ?s3 = (?s4, False)"
    by (simp add: gpsNewFrameUBLOX_step3)
  have 5: "gpsNewFrameUBLOX ext ?lo ?s4 = (?s5, False)"
    by (simp add: gpsNewFrameUBLOX_step4)
  have 6: "gpsNewFrameUBLOX ext ?hi ?s5 = (?s6, False)"
    using m by (simp add: gpsNewFrameUBLOX_step5 Let_def length_bytes_u16 [OF assms(2)] z)
  have st: "step s \<noteq> 8" "step ?s1 \<noteq> 8" "step ?s2 \<noteq> 8" "step ?s3 \<noteq> 8" "step ?s4 \<noteq> 8"
    "step ?s5 \<noteq> 8"
    using assms(1) by simp_all
  have f: "fold ck_step [cls, mid, ?lo, ?hi] (0, 0)
      = (cls + mid + ?lo + ?hi, cls + (cls + mid) + (cls + mid + ?lo) + (cls + mid + ?lo + ?hi))"
    by (simp add: ck_step_def)
  have e: "?s6 = s\<lparr>skip_packet := False, step := (if L = 0 then 7 else 6), msg_class := cls,
        msg_id := mid, ck_a := cls + mid + ?lo + ?hi,
        ck_b := cls + (cls + mid) + (cls + mid + ?lo) + (cls + mid + ?lo + ?hi),
        payload_length := of_nat L, payload_counter := 0\<rparr>"
    by simp
  have "feed ext [PREAMBLE1, PREAMBLE2, cls, mid, ?lo, ?hi] s = ?s6"
    by (simp only: feed.simps 1 2 3 4 5 6 fst_conv)
  moreover have "feed_parsed ext [PREAMBLE1, PREAMBLE2, cls, mid, ?lo, ?hi] s
      = [False, False, False, False, False, False]"
    by (simp only: feed_parsed.simps 1 2 3 4 5 6 fst_conv snd_conv)
  moreover have "dispatched ext [PREAMBLE1, PREAMBLE2, cls, mid, ?lo, ?hi] s = []"
    using st by (simp only: dispatched.simps 1 2 3 4 5 6 fst_conv) simp
  ultimately show ?thesis
    by (simp only: f e fst_conv snd_conv)
qed



text \<open>
  Every well-formed frame whose payload fits the buffer is accepted: read from step 0,
  the bytes of the frame make the decoder call the mapper exactly once, at the last
  byte, on the state that holds the frame; no earlier byte reports anything.
\<close>

theorem decoder_accepts_wire_frame:
  assumes "step s = 0" "length payload \<le> MAX_UBLOX_PAYLOAD_SIZE"
  shows "feed ext (wire_frame cls mid payload) s
      = fst (gpsParceFrameUBLOX ext (frame_accepted cls mid payload s))
    \<and> feed_parsed ext (wire_frame cls mid payload) s
      = replicate (length payload + 7) False
        @ [snd (gpsParceFrameUBLOX ext (frame_accepted cls mid payload s))]
    \<and> dispatched ext (wire_frame cls mid payload) s = [mid]"
proof -
  let ?L = "length payload"
  let ?hd = "[PREAMBLE1, PREAMBLE2, cls, mid, of_nat ?L, of_nat (?L div 256)]"
  let ?body = "[cls, mid, of_nat ?L, of_nat (?L div 256)] @ payload"
  let ?ck4 = "fold ck_step [cls, mid, of_nat ?L, of_nat (?L div 256)] (0, 0)"
  let ?ck = "fold ck_step ?body (0, 0)"
  from assms(2) have L: "?L \<le> 256"
    by (simp add: MAX_UBLOX_PAYLOAD_SIZE_def)
  let ?h = "s\<lparr>skip_packet := False, step := (if ?L = 0 then 7 else 6), msg_class := cls,
        msg_id := mid, ck_a := fst ?ck4, ck_b := snd ?ck4,
        payload_length := of_nat ?L, payload_counter := 0\<rparr>"
  note h = feed_header [OF assms(1) L, of ext cls mid]
  have w: "wire_frame cls mid payload = ?hd @ payload @ [fst ?ck, snd ?ck]"
    by (simp add: wire_frame_def Let_def)
  have ck: "?ck = fold ck_step payload ?ck4"
    by simp
  let ?p = "?h\<lparr>ck_a := fst ?ck, ck_b := snd ?ck,
        buffer := store_payload payload (buffer s),
        payload_counter := of_nat ?L, step := 7\<rparr>"
  have p: "feed ext payload ?h = ?p \<and> feed_parsed ext payload ?h = replicate ?L False
      \<and> dispatched ext payload ?h = []"
  proof (cases "payload = []")
    case True
    then show ?thesis
      by (simp add: store_payload_def)
  next
    case False
    have "feed ext payload ?h =
      ?h\<lparr>ck_a := fst (fold ck_step payload (ck_a ?h, ck_b ?h)),
         ck_b := snd (fold ck_step payload (ck_a ?h, ck_b ?h)),
         buffer := (\<lambda>j. if 0 \<le> j \<and> j < ?L then payload ! (j - 0) else buffer ?h j),
         payload_counter := of_nat ?L, step := 7\<rparr>
      \<and> feed_parsed ext payload ?h = replicate (length payload) False
      \<and> dispatched ext payload ?h = []"
      using False L by (intro feed_payload) simp_all
    moreover have "(\<lambda>j. if 0 \<le> j \<and> j < ?L then payload ! (j - 0) else buffer ?h j)
        = store_payload payload (buffer s)"
      by (simp add: store_payload_def fun_eq_iff)
    moreover have "fold ck_step payload (ck_a ?h, ck_b ?h) = ?ck"
      by simp
    ultimately show ?thesis
      by simp
  qed
  let ?q = "?p\<lparr>step := 8\<rparr>"
  have 7: "gpsNewFrameUBLOX ext (fst ?ck) ?p = (?q, False)"
    by (simp add: gpsNewFrameUBLOX_step7)
  have q: "?q\<lparr>step := 0, packetCount := packetCount ?q + 1\<rparr> = frame_accepted cls mid payload s"
    by (simp add: frame_accepted_def Let_def)
  have 8: "gpsNewFrameUBLOX ext (snd ?ck) ?q
      = gpsParceFrameUBLOX ext (frame_accepted cls mid payload s)"
    using gpsNewFrameUBLOX_dispatch [of ?q "snd ?ck" ext] by (simp only: q) simp
  have t1: "feed ext [fst ?ck, snd ?ck] ?p
        = fst (gpsParceFrameUBLOX ext (frame_accepted cls mid payload s))"
    by (simp only: feed.simps 7 8 fst_conv)
  have t2: "feed_parsed ext [fst ?ck, snd ?ck] ?p
        = [False, snd (gpsParceFrameUBLOX ext (frame_accepted cls mid payload s))]"
    by (simp only: feed_parsed.simps 7 8 fst_conv snd_conv)
  have "dispatched ext [fst ?ck, snd ?ck] ?p
      = (if step ?p = 8 \<and> ck_b ?p = fst ?ck \<and> \<not> skip_packet ?p then [msg_id ?p] else [])
        @ (if step ?q = 8 \<and> ck_b ?q = snd ?ck \<and> \<not> skip_packet ?q then [msg_id ?q] else [])
        @ []"
    by (simp only: dispatched.simps 7 fst_conv)
  also have "\<dots> = [mid]"
    by simp
  finally have t3: "dispatched ext [fst ?ck, snd ?ck] ?p = [mid]" .
  note t = t1 t2 t3
  from h have h1: "feed ext ?hd s = ?h"
    and h2: "feed_parsed ext ?hd s = [False, False, False, False, False, False]"
    and h3: "dispatched ext ?hd s = []"
    by blast+
  from p have p1: "feed ext payload ?h = ?p"
    and p2: "feed_parsed ext payload ?h = replicate ?L False"
    and p3: "dispatched ext payload ?h = []"
    by blast+
  have a: "feed ext (wire_frame cls mid payload) s = feed ext [fst ?ck, snd ?ck] ?p"
    by (simp only: w feed_append h1 p1)
  have b: "feed_parsed ext (wire_frame cls mid payload) s
      = [False, False, False, False, False, False] @ replicate ?L False
        @ feed_parsed ext [fst ?ck, snd ?ck] ?p"
    by (simp only: w feed_append feed_parsed_append h1 h2 p1 p2)
  have c: "dispatched ext (wire_frame cls mid payload) s = dispatched ext [fst ?ck, snd ?ck] ?p"
    by (simp only: w feed_append dispatched_append h1 h3 p1 p3 append_Nil)
  have r: "[False, False, False, False, False, False] @ replicate ?L False @ [False, x]
      = replicate (?L + 7) False @ [x]" for x
  proof -
    have "[False, False, False, False, False, False] = replicate 6 False"
      by (simp add: numeral_eq_Suc)
    moreover have "replicate ?L False @ [False, x] = replicate (Suc ?L) False @ [x]"
      by (simp add: replicate_append_same)
    moreover have "replicate 6 False @ replicate (Suc ?L) False = replicate (?L + 7) False"
    proof -
      have "?L + 7 = 6 + Suc ?L"
        by simp
      then show ?thesis
        by (simp only: replicate_add)
    qed
    ultimately show ?thesis
      by (metis append_assoc)
  qed
  show ?thesis
    by (simp only: a b c t r)
qed


theorem decoder_accepts_wire_frame_example:
  "step ubx_zero = 0
   \<and> length [0x06, 0x24 :: u8] \<le> MAX_UBLOX_PAYLOAD_SIZE
   \<and> wire_frame 0x05 0x01 [0x06, 0x24] = ack_frame_bytes
   \<and> dispatched ext_sample ack_frame_bytes ubx_zero = [0x01]
   \<and> feed ext_sample ack_frame_bytes ubx_zero
       = fst (gpsParceFrameUBLOX ext_sample (frame_accepted 0x05 0x01 [0x06, 0x24] ubx_zero))"
proof -
  have 0: "step ubx_zero = 0"
    by (simp add: ubx_zero_def)
  have l: "length [0x06, 0x24 :: u8] \<le> MAX_UBLOX_PAYLOAD_SIZE"
    by (simp add: MAX_UBLOX_PAYLOAD_SIZE_def)
  have w: "wire_frame 0x05 0x01 [0x06, 0x24] = ack_frame_bytes"
    by (simp add: wire_frame_def ack_frame_bytes_def ck_step_def PREAMBLE1_def PREAMBLE2_def)
  note t = decoder_accepts_wire_frame [OF 0 l, of ext_sample "0x05" "0x01"]
  from t 0 l w show ?thesis
    by (simp only: w)
qed

lemma frame_accepted_fields:
  "msg_id (frame_accepted cls mid payload s) = mid"
  "msg_class (frame_accepted cls mid payload s) = cls"
  "new_position (frame_accepted cls mid payload s) = new_position s"
  "new_speed (frame_accepted cls mid payload s) = new_speed s"
  "buffer (frame_accepted cls mid payload s) = store_payload payload (buffer s)"
  "gpsSol (frame_accepted cls mid payload s) = gpsSol s"
  "next_fix_type (frame_accepted cls mid payload s) = next_fix_type s"
  by (simp_all add: frame_accepted_def Let_def)

subsection \<open>Dispatch\<close>

text \<open>
  The mapper does not look at the class of a navigation id: the decoder accepts the
  frame \<open>cfg_inf_frame\<close>, whose class is CFG and not NAV, and the mapper takes it for a
  position frame: it overwrites the longitude of the solution with payload bytes 4..7
  and sets the position latch.
\<close>

theorem class_not_checked_counterexample:
  "msg_class (feed ext_sample cfg_inf_frame ubx_zero) = CLASS_CFG
   \<and> CLASS_CFG \<noteq> CLASS_NAV
   \<and> msg_id (feed ext_sample cfg_inf_frame ubx_zero) = MSG_POSLLH
   \<and> llh_lon (gpsSol ubx_zero) = 0
   \<and> llh_lon (gpsSol (feed ext_sample cfg_inf_frame ubx_zero)) = 0x07070707
   \<and> new_position (feed ext_sample cfg_inf_frame ubx_zero)"
  by (simp add: cfg_inf_frame_def step_eqs ubx_zero_def ubx_protocol_bytes Let_def
      MAX_UBLOX_PAYLOAD_SIZE_def gpsParceFrameUBLOX_def ubx_switch_def case_MSG_POSLLH_def
      rd_u32_def ext_sample_def)

lemma case_msg_class:
  "case_MSG_POSLLH ext (s\<lparr>msg_class := c\<rparr>) = (case_MSG_POSLLH ext s)\<lparr>msg_class := c\<rparr>"
  "case_MSG_STATUS (s\<lparr>msg_class := c\<rparr>) = (case_MSG_STATUS s)\<lparr>msg_class := c\<rparr>"
  "case_MSG_SOL ext (s\<lparr>msg_class := c\<rparr>) = (case_MSG_SOL ext s)\<lparr>msg_class := c\<rparr>"
  "case_MSG_VELNED (s\<lparr>msg_class := c\<rparr>) = (case_MSG_VELNED s)\<lparr>msg_class := c\<rparr>"
  "case_MSG_TIMEUTC (s\<lparr>msg_class := c\<rparr>) = (case_MSG_TIMEUTC s)\<lparr>msg_class := c\<rparr>"
  "case_MSG_PVT ext (s\<lparr>msg_class := c\<rparr>) = (case_MSG_PVT ext s)\<lparr>msg_class := c\<rparr>"
  "case_MSG_ACK_ACK (s\<lparr>msg_class := c\<rparr>) = (case_MSG_ACK_ACK s)\<lparr>msg_class := c\<rparr>"
  "case_MSG_ACK_NACK (s\<lparr>msg_class := c\<rparr>) = (case_MSG_ACK_NACK s)\<lparr>msg_class := c\<rparr>"
  by (simp_all add: case_defs Let_def)

lemma ubx_switch_msg_class:
  "msg_id s \<noteq> MSG_VER \<Longrightarrow>
   ubx_switch ext (s\<lparr>msg_class := c\<rparr>) = map_option (\<lambda>s1. s1\<lparr>msg_class := c\<rparr>) (ubx_switch ext s)"
  by (simp add: ubx_switch_def case_msg_class)


text \<open>
  C2.  The mapper does not dispatch on the pair (class, id): its switch is on the
  message id alone, and the class the decoder has stored is compared in one case only,
  that of the version-info id, where the switch changes nothing unless the class is MON.
  For every other id, what the mapper does is the same whatever the class of the frame
  is.  So a frame with the id of the position message is taken for a position frame
  whatever its class: the mapper sets longitude and latitude of the solution from its
  payload; and read from step 0, every well-formed frame with that id, of whatever
  class, is handed to the mapper and overwrites longitude and latitude with its payload
  bytes 4..7 and 8..11.  A frame whose id is none of the nine handled ids changes
  nothing and is reported as epoch incomplete.
\<close>

theorem mapper_dispatches_on_msg_id_alone:
  "(msg_id s \<noteq> MSG_VER \<longrightarrow>
      gpsParceFrameUBLOX ext (s\<lparr>msg_class := c\<rparr>)
        = ((fst (gpsParceFrameUBLOX ext s))\<lparr>msg_class := c\<rparr>, snd (gpsParceFrameUBLOX ext s)))
   \<and> (msg_id s = MSG_POSLLH \<longrightarrow>
        llh_lon (gpsSol (fst (gpsParceFrameUBLOX ext s))) = rd_u32 (buffer s) 4
        \<and> llh_lat (gpsSol (fst (gpsParceFrameUBLOX ext s))) = rd_u32 (buffer s) 8)
   \<and> (step s = 0 \<longrightarrow> length p \<le> MAX_UBLOX_PAYLOAD_SIZE \<longrightarrow>
        dispatched ext (wire_frame c MSG_POSLLH p) s = [MSG_POSLLH]
        \<and> llh_lon (gpsSol (feed ext (wire_frame c MSG_POSLLH p) s))
            = rd_u32 (store_payload p (buffer s)) 4
        \<and> llh_lat (gpsSol (feed ext (wire_frame c MSG_POSLLH p) s))
            = rd_u32 (store_payload p (buffer s)) 8)
   \<and> (msg_id s = MSG_VER \<longrightarrow> msg_class s \<noteq> CLASS_MON \<longrightarrow> ubx_switch ext s = Some s)
   \<and> (msg_id s \<noteq> MSG_POSLLH \<and> msg_id s \<noteq> MSG_STATUS \<and> msg_id s \<noteq> MSG_SOL
       \<and> msg_id s \<noteq> MSG_VELNED \<and> msg_id s \<noteq> MSG_TIMEUTC \<and> msg_id s \<noteq> MSG_PVT
       \<and> msg_id s \<noteq> MSG_VER \<and> msg_id s \<noteq> MSG_ACK_ACK \<and> msg_id s \<noteq> MSG_ACK_NACK
      \<longrightarrow> gpsParceFrameUBLOX ext s = (s, False))"
proof (intro conjI impI)
  assume "msg_id s \<noteq> MSG_VER"
  then show "gpsParceFrameUBLOX ext (s\<lparr>msg_class := c\<rparr>)
        = ((fst (gpsParceFrameUBLOX ext s))\<lparr>msg_class := c\<rparr>, snd (gpsParceFrameUBLOX ext s))"
    by (cases "ubx_switch ext s") (simp_all add: gpsParceFrameUBLOX_def ubx_switch_msg_class)
next
  assume "msg_id s = MSG_POSLLH"
  then show "llh_lon (gpsSol (fst (gpsParceFrameUBLOX ext s))) = rd_u32 (buffer s) 4"
    and "llh_lat (gpsSol (fst (gpsParceFrameUBLOX ext s))) = rd_u32 (buffer s) 8"
    by (simp_all add: gpsParceFrameUBLOX_gpsSol ubx_switch_simps case_MSG_POSLLH_def Let_def)
next
  assume 0: "step s = 0" and l: "length p \<le> MAX_UBLOX_PAYLOAD_SIZE"
  let ?a = "frame_accepted c MSG_POSLLH p s"
  note f = decoder_accepts_wire_frame [OF 0 l, of ext c MSG_POSLLH]
  from f show "dispatched ext (wire_frame c MSG_POSLLH p) s = [MSG_POSLLH]"
    by blast
  from f have e: "feed ext (wire_frame c MSG_POSLLH p) s = fst (gpsParceFrameUBLOX ext ?a)"
    by blast
  have a: "msg_id ?a = MSG_POSLLH" "buffer ?a = store_payload p (buffer s)"
    by (simp_all add: frame_accepted_fields)
  from a show "llh_lon (gpsSol (feed ext (wire_frame c MSG_POSLLH p) s))
            = rd_u32 (store_payload p (buffer s)) 4"
    and "llh_lat (gpsSol (feed ext (wire_frame c MSG_POSLLH p) s))
            = rd_u32 (store_payload p (buffer s)) 8"
    by (simp_all add: e gpsParceFrameUBLOX_gpsSol ubx_switch_simps case_MSG_POSLLH_def Let_def)
next
  assume "msg_id s = MSG_VER" "msg_class s \<noteq> CLASS_MON"
  then show "ubx_switch ext s = Some s"
    by (simp add: ubx_switch_simps case_MSG_VER_def)
next
  assume "msg_id s \<noteq> MSG_POSLLH \<and> msg_id s \<noteq> MSG_STATUS \<and> msg_id s \<noteq> MSG_SOL
       \<and> msg_id s \<noteq> MSG_VELNED \<and> msg_id s \<noteq> MSG_TIMEUTC \<and> msg_id s \<noteq> MSG_PVT
       \<and> msg_id s \<noteq> MSG_VER \<and> msg_id s \<noteq> MSG_ACK_ACK \<and> msg_id s \<noteq> MSG_ACK_NACK"
  then show "gpsParceFrameUBLOX ext s = (s, False)"
    by (simp add: gpsParceFrameUBLOX_def ubx_switch_def)
qed

theorem mapper_dispatch_witness:
  "msg_id (ubx_zero\<lparr>msg_id := MSG_POSLLH, buffer := (\<lambda>i. 0)(4 := 1)\<rparr>) \<noteq> MSG_VER
   \<and> llh_lon (gpsSol (fst (gpsParceFrameUBLOX ext_sample
        (ubx_zero\<lparr>msg_id := MSG_POSLLH, buffer := (\<lambda>i. 0)(4 := 1), msg_class := CLASS_CFG\<rparr>)))) = 1
   \<and> step ubx_zero = 0
   \<and> CLASS_CFG \<noteq> CLASS_NAV
   \<and> dispatched ext_sample
        (wire_frame CLASS_CFG MSG_POSLLH [0x01, 0x00, 0x00, 0x00, 0x07, 0x07, 0x07, 0x07, 0x07, 0x07])
        ubx_zero = [0x02]
   \<and> llh_lon (gpsSol (feed ext_sample
        (wire_frame CLASS_CFG MSG_POSLLH [0x01, 0x00, 0x00, 0x00, 0x07, 0x07, 0x07, 0x07, 0x07, 0x07])
        ubx_zero)) = 0x07070707
   \<and> msg_class (ubx_zero\<lparr>msg_id := MSG_VER\<rparr>) \<noteq> CLASS_MON
   \<and> ubx_switch ext_sample (ubx_zero\<lparr>msg_id := MSG_VER\<rparr>) = Some (ubx_zero\<lparr>msg_id := MSG_VER\<rparr>)
   \<and> gpsParceFrameUBLOX ext_sample (ubx_zero\<lparr>msg_id := 0x13\<rparr>) = (ubx_zero\<lparr>msg_id := 0x13\<rparr>, False)"
proof -
  let ?s = "ubx_zero\<lparr>msg_id := MSG_POSLLH, buffer := (\<lambda>i. 0)(4 := 1)\<rparr>"
  let ?p = "[0x01, 0x00, 0x00, 0x00, 0x07, 0x07, 0x07, 0x07, 0x07, 0x07] :: u8 list"
  have i: "msg_id ?s \<noteq> MSG_VER"
    by (simp add: ubx_protocol_bytes)
  note t = mapper_dispatches_on_msg_id_alone [of ?s ext_sample CLASS_CFG]
  from t have "llh_lon (gpsSol (fst (gpsParceFrameUBLOX ext_sample ?s))) = rd_u32 (buffer ?s) 4"
    by simp
  then have l: "llh_lon (gpsSol (fst (gpsParceFrameUBLOX ext_sample ?s))) = 1"
    by (simp add: rd_u32_def)
  from t i have "gpsParceFrameUBLOX ext_sample (?s\<lparr>msg_class := CLASS_CFG\<rparr>)
        = ((fst (gpsParceFrameUBLOX ext_sample ?s))\<lparr>msg_class := CLASS_CFG\<rparr>,
           snd (gpsParceFrameUBLOX ext_sample ?s))"
    by blast
  then have a: "llh_lon (gpsSol (fst (gpsParceFrameUBLOX ext_sample (?s\<lparr>msg_class := CLASS_CFG\<rparr>)))) = 1"
    by (simp add: l)
  have 0: "step ubx_zero = 0"
    by (simp add: ubx_zero_def)
  have n: "CLASS_CFG \<noteq> CLASS_NAV"
    by (simp add: ubx_protocol_bytes)
  have len: "length ?p \<le> MAX_UBLOX_PAYLOAD_SIZE"
    by (simp add: MAX_UBLOX_PAYLOAD_SIZE_def)
  note w = mapper_dispatches_on_msg_id_alone [of ubx_zero ext_sample CLASS_CFG ?p]
  from w 0 len have d: "dispatched ext_sample (wire_frame CLASS_CFG MSG_POSLLH ?p) ubx_zero = [MSG_POSLLH]"
    and "llh_lon (gpsSol (feed ext_sample (wire_frame CLASS_CFG MSG_POSLLH ?p) ubx_zero))
            = rd_u32 (store_payload ?p (buffer ubx_zero)) 4"
    by blast+
  then have g: "llh_lon (gpsSol (feed ext_sample (wire_frame CLASS_CFG MSG_POSLLH ?p) ubx_zero))
            = 0x07070707"
    by (simp add: rd_u32_def store_payload_def)
  from d have d': "dispatched ext_sample (wire_frame CLASS_CFG MSG_POSLLH ?p) ubx_zero = [0x02]"
    by (simp add: MSG_POSLLH_def)
  note v = mapper_dispatches_on_msg_id_alone [of "ubx_zero\<lparr>msg_id := MSG_VER\<rparr>" ext_sample]
  have m: "msg_class (ubx_zero\<lparr>msg_id := MSG_VER\<rparr>) \<noteq> CLASS_MON"
    by (simp add: ubx_zero_def ubx_protocol_bytes)
  with v have e: "ubx_switch ext_sample (ubx_zero\<lparr>msg_id := MSG_VER\<rparr>) = Some (ubx_zero\<lparr>msg_id := MSG_VER\<rparr>)"
    by simp
  note u = mapper_dispatches_on_msg_id_alone [of "ubx_zero\<lparr>msg_id := 0x13\<rparr>" ext_sample]
  have b: "gpsParceFrameUBLOX ext_sample (ubx_zero\<lparr>msg_id := 0x13\<rparr>) = (ubx_zero\<lparr>msg_id := 0x13\<rparr>, False)"
    using u by (simp add: ubx_protocol_bytes)
  from i a 0 n d' g m e b show ?thesis
    by blast
qed

subsection \<open>Epoch completion without a position frame\<close>

lemma gpsParceFrameUBLOX_POSLLH:
  assumes "msg_id s = MSG_POSLLH" "\<not> new_speed s"
  shows "\<not> snd (gpsParceFrameUBLOX ext s)"
    and "new_position (fst (gpsParceFrameUBLOX ext s))"
    and "\<not> new_speed (fst (gpsParceFrameUBLOX ext s))"
  using assms by (simp_all add: gpsParceFrameUBLOX_def ubx_switch_simps case_latches)

lemma gpsParceFrameUBLOX_VELNED:
  assumes "msg_id s = MSG_VELNED" "new_position s"
  shows "snd (gpsParceFrameUBLOX ext s)"
  using assms by (simp add: gpsParceFrameUBLOX_def ubx_switch_simps case_latches)

lemma cfg_inf_frame_wire:
  "wire_frame CLASS_CFG MSG_POSLLH [0x01, 0x00, 0x00, 0x00, 0x07, 0x07, 0x07, 0x07, 0x07, 0x07]
     = cfg_inf_frame"
  by (simp add: wire_frame_def cfg_inf_frame_def ck_step_def ubx_protocol_bytes)

lemma nav_velned_frame_wire:
  "wire_frame CLASS_NAV MSG_VELNED
      [0x00, 0x00, 0x00, 0x00, 0xF1, 0xFF, 0xFF, 0xFF, 0x00, 0x00, 0x00, 0x00,
       0x00, 0x00, 0x00, 0x00, 0x00, 0x00, 0x00, 0x00, 0x7B, 0x00, 0x00, 0x00,
       0x40, 0x77, 0x1B, 0x00, 0x00, 0x00, 0x00, 0x00, 0x00, 0x00, 0x00, 0x00]
     = nav_velned_frame"
  by (simp add: wire_frame_def nav_velned_frame_def ck_step_def ubx_protocol_bytes)

text \<open>
  C6.  Epoch completion fires without a position-bearing frame.  The mapper takes every
  frame with id 0x02 for a position frame, whatever its class, and every frame with id
  0x12 for a velocity frame, so the latches are set by frames that carry no position
  and no velocity.  Read from step 0 with both latches clear, a well-formed frame of any
  class \<open>c\<close> with id 0x02 followed by a well-formed frame of any class \<open>d\<close> with id 0x12
  makes the decoder report epoch-complete at the last byte of the second frame, and at
  no byte before.  With \<open>c\<close> the class CFG, the stream holds a velocity frame and no
  position-bearing frame, and completion fires.
\<close>

theorem epoch_complete_without_position_frame:
  "step s = 0 \<and> \<not> new_position s \<and> \<not> new_speed s
     \<and> length p \<le> MAX_UBLOX_PAYLOAD_SIZE \<and> length q \<le> MAX_UBLOX_PAYLOAD_SIZE
   \<longrightarrow> dispatched ext (wire_frame c MSG_POSLLH p @ wire_frame d MSG_VELNED q) s
         = [MSG_POSLLH, MSG_VELNED]
       \<and> feed_parsed ext (wire_frame c MSG_POSLLH p @ wire_frame d MSG_VELNED q) s
         = replicate (length p + 8) False @ replicate (length q + 7) False @ [True]"
proof (intro impI, elim conjE)
  assume 0: "step s = 0" and np: "\<not> new_position s" and ns: "\<not> new_speed s"
    and lp: "length p \<le> MAX_UBLOX_PAYLOAD_SIZE" and lq: "length q \<le> MAX_UBLOX_PAYLOAD_SIZE"
  let ?a = "frame_accepted c MSG_POSLLH p s"
  let ?s1 = "fst (gpsParceFrameUBLOX ext ?a)"
  let ?b = "frame_accepted d MSG_VELNED q ?s1"
  note f1 = decoder_accepts_wire_frame [OF 0 lp, of ext c MSG_POSLLH]
  have a: "msg_id ?a = MSG_POSLLH" "\<not> new_speed ?a"
    using ns by (simp_all add: frame_accepted_fields)
  have r1: "\<not> snd (gpsParceFrameUBLOX ext ?a)" and p1: "new_position ?s1"
    using gpsParceFrameUBLOX_POSLLH [OF a] by blast+
  have 1: "step ?s1 = 0"
    by (simp add: gpsParceFrameUBLOX_decoder_fields frame_accepted_def Let_def)
  note f2 = decoder_accepts_wire_frame [OF 1 lq, of ext d MSG_VELNED]
  have b: "msg_id ?b = MSG_VELNED" "new_position ?b"
    using p1 by (simp_all add: frame_accepted_fields)
  have r2: "snd (gpsParceFrameUBLOX ext ?b)"
    using gpsParceFrameUBLOX_VELNED [OF b] .
  have e1: "feed ext (wire_frame c MSG_POSLLH p) s = ?s1"
    using f1 by blast
  have d1: "dispatched ext (wire_frame c MSG_POSLLH p) s = [MSG_POSLLH]"
    using f1 by blast
  have g1: "feed_parsed ext (wire_frame c MSG_POSLLH p) s = replicate (length p + 8) False"
  proof -
    from f1 have "feed_parsed ext (wire_frame c MSG_POSLLH p) s
        = replicate (length p + 7) False @ [snd (gpsParceFrameUBLOX ext ?a)]"
      by blast
    also have "\<dots> = replicate (length p + 7) False @ [False]"
      using r1 by simp
    also have "\<dots> = replicate (length p + 7) False @ replicate 1 False"
      by simp
    also have "\<dots> = replicate (length p + 7 + 1) False"
      by (simp only: replicate_add)
    finally show ?thesis
      by simp
  qed
  have d2: "dispatched ext (wire_frame d MSG_VELNED q) ?s1 = [MSG_VELNED]"
    using f2 by blast
  have g2: "feed_parsed ext (wire_frame d MSG_VELNED q) ?s1 = replicate (length q + 7) False @ [True]"
  proof -
    from f2 have "feed_parsed ext (wire_frame d MSG_VELNED q) ?s1
        = replicate (length q + 7) False @ [snd (gpsParceFrameUBLOX ext ?b)]"
      by blast
    with r2 show ?thesis
      by simp
  qed
  show "dispatched ext (wire_frame c MSG_POSLLH p @ wire_frame d MSG_VELNED q) s
         = [MSG_POSLLH, MSG_VELNED]
       \<and> feed_parsed ext (wire_frame c MSG_POSLLH p @ wire_frame d MSG_VELNED q) s
         = replicate (length p + 8) False @ replicate (length q + 7) False @ [True]"
    by (simp only: dispatched_append feed_parsed_append e1 d1 d2 g1 g2) simp
qed

theorem epoch_complete_without_position_frame_witness:
  "step ubx_zero = 0 \<and> \<not> new_position ubx_zero \<and> \<not> new_speed ubx_zero
   \<and> CLASS_CFG \<noteq> CLASS_NAV
   \<and> dispatched ext_sample (cfg_inf_frame @ nav_velned_frame) ubx_zero = [0x02, 0x12]
   \<and> feed_parsed ext_sample (cfg_inf_frame @ nav_velned_frame) ubx_zero
        = replicate 61 False @ [True]"
proof -
  let ?p = "[0x01, 0x00, 0x00, 0x00, 0x07, 0x07, 0x07, 0x07, 0x07, 0x07] :: u8 list"
  let ?q = "[0x00, 0x00, 0x00, 0x00, 0xF1, 0xFF, 0xFF, 0xFF, 0x00, 0x00, 0x00, 0x00,
       0x00, 0x00, 0x00, 0x00, 0x00, 0x00, 0x00, 0x00, 0x7B, 0x00, 0x00, 0x00,
       0x40, 0x77, 0x1B, 0x00, 0x00, 0x00, 0x00, 0x00, 0x00, 0x00, 0x00, 0x00] :: u8 list"
  have z: "step ubx_zero = 0" "\<not> new_position ubx_zero" "\<not> new_speed ubx_zero"
    by (simp_all add: ubx_zero_def)
  have l: "length ?p \<le> MAX_UBLOX_PAYLOAD_SIZE" "length ?q \<le> MAX_UBLOX_PAYLOAD_SIZE"
    by (simp_all add: MAX_UBLOX_PAYLOAD_SIZE_def)
  have c: "CLASS_CFG \<noteq> CLASS_NAV"
    by (simp add: ubx_protocol_bytes)
  note t = epoch_complete_without_position_frame
    [of ubx_zero ?p ?q ext_sample CLASS_CFG CLASS_NAV]
  from t z l have
    "dispatched ext_sample (wire_frame CLASS_CFG MSG_POSLLH ?p @ wire_frame CLASS_NAV MSG_VELNED ?q) ubx_zero
         = [MSG_POSLLH, MSG_VELNED]
     \<and> feed_parsed ext_sample (wire_frame CLASS_CFG MSG_POSLLH ?p @ wire_frame CLASS_NAV MSG_VELNED ?q) ubx_zero
         = replicate (length ?p + 8) False @ replicate (length ?q + 7) False @ [True]"
    by blast
  then have "dispatched ext_sample (cfg_inf_frame @ nav_velned_frame) ubx_zero
         = [MSG_POSLLH, MSG_VELNED]
     \<and> feed_parsed ext_sample (cfg_inf_frame @ nav_velned_frame) ubx_zero
         = replicate (length ?p + 8) False @ replicate (length ?q + 7) False @ [True]"
    by (simp only: cfg_inf_frame_wire nav_velned_frame_wire)
  then have "dispatched ext_sample (cfg_inf_frame @ nav_velned_frame) ubx_zero = [0x02, 0x12]"
    and "feed_parsed ext_sample (cfg_inf_frame @ nav_velned_frame) ubx_zero
        = replicate 61 False @ [True]"
    by (simp_all add: MSG_POSLLH_def MSG_VELNED_def replicate_add [symmetric])
  with z c show ?thesis
    by simp
qed

subsection \<open>Frame decoder\<close>

text \<open>
  C10.  In every reachable state in which the decoder waits for the second checksum byte
  (step 8) the skip-packet flag is false; so when that byte matches, the decoder
  increments the packet count, calls the mapper once on the frame and is back at step 0.
  A mismatch of the first checksum byte sets the flag and restarts the decoder at step 0
  in the same transition, and leaving step 0 clears the flag.  Read from step 0, every
  well-formed frame whose payload fits the buffer is handed to the mapper exactly once.
\<close>

theorem skip_packet_clear_at_checksum_b:
  "(reachable ext s \<longrightarrow> step s = 8 \<longrightarrow> \<not> skip_packet s)
   \<and> (reachable ext s \<longrightarrow> step s = 8 \<longrightarrow> ck_b s = data \<longrightarrow>
        gpsNewFrameUBLOX ext data s
          = gpsParceFrameUBLOX ext (s\<lparr>step := 0, packetCount := packetCount s + 1\<rparr>)
        \<and> step (fst (gpsNewFrameUBLOX ext data s)) = 0)
   \<and> (step s = 7 \<longrightarrow> ck_a s \<noteq> data \<longrightarrow>
        skip_packet (fst (gpsNewFrameUBLOX ext data s))
        \<and> step (fst (gpsNewFrameUBLOX ext data s)) = 0)
   \<and> (step s = 0 \<longrightarrow> step (fst (gpsNewFrameUBLOX ext data s)) \<noteq> 0 \<longrightarrow>
        \<not> skip_packet (fst (gpsNewFrameUBLOX ext data s)))
   \<and> (step s = 0 \<longrightarrow> length payload \<le> MAX_UBLOX_PAYLOAD_SIZE \<longrightarrow>
        dispatched ext (wire_frame cls mid payload) s = [mid]
        \<and> feed ext (wire_frame cls mid payload) s
            = fst (gpsParceFrameUBLOX ext (frame_accepted cls mid payload s)))"
proof (intro conjI impI)
  assume r: "reachable ext s" and 8: "step s = 8"
  from reachable_decoder_inv [OF r] 8 show n: "\<not> skip_packet s"
    by simp
  assume "ck_b s = data"
  with 8 n show "gpsNewFrameUBLOX ext data s
          = gpsParceFrameUBLOX ext (s\<lparr>step := 0, packetCount := packetCount s + 1\<rparr>)"
    by (simp add: gpsNewFrameUBLOX_dispatch)
  then show "step (fst (gpsNewFrameUBLOX ext data s)) = 0"
    by (simp add: gpsParceFrameUBLOX_decoder_fields)
next
  assume "step s = 7" "ck_a s \<noteq> data"
  then show "skip_packet (fst (gpsNewFrameUBLOX ext data s))"
    and "step (fst (gpsNewFrameUBLOX ext data s)) = 0"
    by (simp_all add: gpsNewFrameUBLOX_step7)
next
  assume "step s = 0" "step (fst (gpsNewFrameUBLOX ext data s)) \<noteq> 0"
  then show "\<not> skip_packet (fst (gpsNewFrameUBLOX ext data s))"
    by (simp add: gpsNewFrameUBLOX_step0 split: if_splits)
next
  assume "step s = 0" "length payload \<le> MAX_UBLOX_PAYLOAD_SIZE"
  then show "dispatched ext (wire_frame cls mid payload) s = [mid]"
    and "feed ext (wire_frame cls mid payload) s
            = fst (gpsParceFrameUBLOX ext (frame_accepted cls mid payload s))"
    using decoder_accepts_wire_frame [of s payload ext cls mid] by blast+
qed

theorem skip_packet_witness:
  "reachable ext_sample (feed ext_sample (butlast ack_frame_bytes) ubx_zero)
   \<and> step (feed ext_sample (butlast ack_frame_bytes) ubx_zero) = 8
   \<and> ck_b (feed ext_sample (butlast ack_frame_bytes) ubx_zero) = 0x5B
   \<and> \<not> skip_packet (feed ext_sample (butlast ack_frame_bytes) ubx_zero)
   \<and> step (feed ext_sample ack_frame_bytes ubx_zero) = 0
   \<and> packetCount (feed ext_sample ack_frame_bytes ubx_zero) = 1
   \<and> dispatched ext_sample (wire_frame 0x01 0x02 [0, 0, 0, 0, 1, 0, 0, 0]) ubx_zero = [0x02]"
proof -
  let ?s = "feed ext_sample (butlast ack_frame_bytes) ubx_zero"
  have r: "reachable ext_sample ?s"
    by (intro reachable_feed reach_init initial_ubx_zero)
  have 8: "step ?s = 8" and c: "ck_b ?s = 0x5B"
    by (simp_all add: ack_frame_state)
  note t = skip_packet_clear_at_checksum_b [of ext_sample ?s "0x5B"]
  from t r 8 have n: "\<not> skip_packet ?s"
    by blast
  from t r 8 c have d: "gpsNewFrameUBLOX ext_sample 0x5B ?s
      = gpsParceFrameUBLOX ext_sample (?s\<lparr>step := 0, packetCount := packetCount ?s + 1\<rparr>)"
    by blast
  have f: "step (feed ext_sample ack_frame_bytes ubx_zero) = 0"
    "packetCount (feed ext_sample ack_frame_bytes ubx_zero) = 1"
    by (simp_all add: ack_frame_bytes_def step_eqs ubx_zero_def ubx_protocol_bytes Let_def
        MAX_UBLOX_PAYLOAD_SIZE_def gpsParceFrameUBLOX_def ubx_switch_def case_MSG_ACK_ACK_def)
  have 0: "step ubx_zero = 0"
    by (simp add: ubx_zero_def)
  have l: "length [0, 0, 0, 0, 1, 0, 0, 0 :: u8] \<le> MAX_UBLOX_PAYLOAD_SIZE"
    by (simp add: MAX_UBLOX_PAYLOAD_SIZE_def)
  from skip_packet_clear_at_checksum_b
    [of ext_sample ubx_zero _ "[0, 0, 0, 0, 1, 0, 0, 0]" "0x01" "0x02"] 0 l
  have w: "dispatched ext_sample (wire_frame 0x01 0x02 [0, 0, 0, 0, 1, 0, 0, 0]) ubx_zero = [0x02]"
    by blast
  from r 8 c n f w show ?thesis
    by simp
qed

lemma buffer_gpsNewFrameUBLOX:
  "MAX_UBLOX_PAYLOAD_SIZE \<le> i \<Longrightarrow> buffer (fst (gpsNewFrameUBLOX ext data s)) i = buffer s i"
proof (cases s rule: step_cases)
  case 0
  then show ?thesis by (simp add: gpsNewFrameUBLOX_step0)
next
  case 1
  then show ?thesis by (simp add: gpsNewFrameUBLOX_step1)
next
  case 2
  then show ?thesis by (simp add: gpsNewFrameUBLOX_step2)
next
  case 3
  then show ?thesis by (simp add: gpsNewFrameUBLOX_step3)
next
  case 4
  then show ?thesis by (simp add: gpsNewFrameUBLOX_step4)
next
  case 5
  then show ?thesis by (simp add: gpsNewFrameUBLOX_step5 Let_def)
next
  case 6
  assume "MAX_UBLOX_PAYLOAD_SIZE \<le> i"
  with 6 show ?thesis by (simp add: gpsNewFrameUBLOX_step6 Let_def)
next
  case 7
  then show ?thesis by (simp add: gpsNewFrameUBLOX_step7)
next
  case 8
  then show ?thesis by (simp add: gpsNewFrameUBLOX_step8 gpsParceFrameUBLOX_decoder_fields)
next
  case other
  then show ?thesis by (simp add: gpsNewFrameUBLOX_step_other)
qed

lemma buffer_feed:
  "MAX_UBLOX_PAYLOAD_SIZE \<le> i \<Longrightarrow> buffer (feed ext ds s) i = buffer s i"
  by (induction ds arbitrary: s) (simp_all add: buffer_gpsNewFrameUBLOX)


text \<open>
  C5.  When the two length bytes declare more than 256 bytes, the decoder counts an
  error, leaves the buffer as it is, reports nothing and is back at step 0, so the next
  byte is examined as a first sync byte.  In the payload state the byte is stored at the
  payload counter only when the counter is below 256.  No byte stream changes the
  memory at an offset of 256 or more from the start of the buffer.
\<close>

theorem oversized_length_and_payload_bounds:
  "(step s = 4 \<longrightarrow> MAX_UBLOX_PAYLOAD_SIZE < unat lo + 256 * unat hi \<longrightarrow>
      step (feed ext [lo, hi] s) = 0
      \<and> errors (feed ext [lo, hi] s) = errors s + 1
      \<and> buffer (feed ext [lo, hi] s) = buffer s
      \<and> feed_parsed ext [lo, hi] s = [False, False]
      \<and> step (feed ext [lo, hi, d] s) = (if d = PREAMBLE1 then 1 else 0))
   \<and> (step s = 6 \<longrightarrow>
      buffer (fst (gpsNewFrameUBLOX ext data s))
        = (if unat (payload_counter s) < MAX_UBLOX_PAYLOAD_SIZE
           then (buffer s)(unat (payload_counter s) := data) else buffer s))
   \<and> (MAX_UBLOX_PAYLOAD_SIZE \<le> i \<longrightarrow> buffer (feed ext ds s) i = buffer s i)"
proof (intro conjI impI)
  assume 4: "step s = 4" and big: "MAX_UBLOX_PAYLOAD_SIZE < unat lo + 256 * unat hi"
  let ?s1 = "fst (gpsNewFrameUBLOX ext lo s)"
  have s1: "?s1 = s\<lparr>step := 5, ck_a := ck_a s + lo, ck_b := ck_b s + (ck_a s + lo),
        payload_length := ucast lo\<rparr>"
    using 4 by (simp add: gpsNewFrameUBLOX_step4)
  have 5: "step ?s1 = 5"
    by (simp add: s1)
  have len: "MAX_UBLOX_PAYLOAD_SIZE < unat (payload_length ?s1 OR push_bit 8 (ucast hi))"
    using big by (simp add: s1 unat_payload_length)
  have s2: "gpsNewFrameUBLOX ext hi ?s1 =
      (?s1\<lparr>step := 0, ck_a := ck_a ?s1 + hi, ck_b := ck_b ?s1 + (ck_a ?s1 + hi),
           payload_length := payload_length ?s1 OR push_bit 8 (ucast hi),
           errors := errors ?s1 + 1\<rparr>, False)"
    using len by (simp add: gpsNewFrameUBLOX_step5 [OF 5] Let_def)
  have f: "feed ext [lo, hi] s = fst (gpsNewFrameUBLOX ext hi ?s1)"
    by simp
  show "step (feed ext [lo, hi] s) = 0"
    by (simp only: f s2) simp
  show "errors (feed ext [lo, hi] s) = errors s + 1"
    by (simp only: f s2) (simp add: s1)
  show "buffer (feed ext [lo, hi] s) = buffer s"
    by (simp only: f s2) (simp add: s1)
  show "feed_parsed ext [lo, hi] s = [False, False]"
    using 4 s2 by (simp add: gpsNewFrameUBLOX_step4)
  have "feed ext [lo, hi, d] s = fst (gpsNewFrameUBLOX ext d (feed ext [lo, hi] s))"
    by simp
  moreover have "step (feed ext [lo, hi] s) = 0"
    by (simp only: f s2) simp
  ultimately show "step (feed ext [lo, hi, d] s) = (if d = PREAMBLE1 then 1 else 0)"
    by (simp add: gpsNewFrameUBLOX_step0)
next
  assume "step s = 6"
  then show "buffer (fst (gpsNewFrameUBLOX ext data s))
        = (if unat (payload_counter s) < MAX_UBLOX_PAYLOAD_SIZE
           then (buffer s)(unat (payload_counter s) := data) else buffer s)"
    by (simp add: gpsNewFrameUBLOX_step6 Let_def)
next
  assume "MAX_UBLOX_PAYLOAD_SIZE \<le> i"
  then show "buffer (feed ext ds s) i = buffer s i"
    by (rule buffer_feed)
qed


theorem oversized_length_witness:
  "step (feed ext_sample [0xB5, 0x62, 0x01, 0x02] ubx_zero) = 4
   \<and> MAX_UBLOX_PAYLOAD_SIZE < unat (0x01 :: u8) + 256 * unat (0x01 :: u8)
   \<and> step (feed ext_sample [0x01, 0x01] (feed ext_sample [0xB5, 0x62, 0x01, 0x02] ubx_zero)) = 0
   \<and> errors (feed ext_sample [0x01, 0x01] (feed ext_sample [0xB5, 0x62, 0x01, 0x02] ubx_zero)) = 1
   \<and> step (feed ext_sample [0x01, 0x01, 0xB5]
        (feed ext_sample [0xB5, 0x62, 0x01, 0x02] ubx_zero)) = 1
   \<and> buffer (feed ext_sample cfg_inf_frame ubx_zero) 256 = 0"
proof -
  let ?s = "feed ext_sample [0xB5, 0x62, 0x01, 0x02] ubx_zero"
  have 4: "step ?s = 4" and e: "errors ?s = 0"
    by (simp_all add: step_eqs ubx_zero_def ubx_protocol_bytes)
  have b: "MAX_UBLOX_PAYLOAD_SIZE < unat (0x01 :: u8) + 256 * unat (0x01 :: u8)"
    by (simp add: MAX_UBLOX_PAYLOAD_SIZE_def)
  note t = oversized_length_and_payload_bounds [THEN conjunct1, rule_format, OF 4 b]
  note u = oversized_length_and_payload_bounds [THEN conjunct2, THEN conjunct2, rule_format,
      of 256 ext_sample cfg_inf_frame ubx_zero]
  have t1: "step (feed ext_sample [0x01, 0x01] ?s) = 0"
    using t by blast
  have "errors (feed ext_sample [0x01, 0x01] ?s) = errors ?s + 1"
    using t by blast
  then have t2: "errors (feed ext_sample [0x01, 0x01] ?s) = 1"
    by (simp only: e) simp
  have "step (feed ext_sample [0x01, 0x01, 0xB5] ?s) = (if (0xB5 :: u8) = PREAMBLE1 then 1 else 0)"
    using t [where d = "0xB5"] by blast
  then have t3: "step (feed ext_sample [0x01, 0x01, 0xB5] ?s) = 1"
    by (simp only: PREAMBLE1_def) simp
  have "buffer ubx_zero 256 = 0"
    by (simp add: ubx_zero_def)
  with u have u': "buffer (feed ext_sample cfg_inf_frame ubx_zero) 256 = 0"
    by (simp add: MAX_UBLOX_PAYLOAD_SIZE_def)
  from 4 b t1 t2 t3 u' show ?thesis
    by (intro conjI)
qed



subsection \<open>Command encoder\<close>

lemma ck_step_eq: "ck_step = (\<lambda>x (a, b). (a + x, b + (a + x)))"
  by (simp add: ck_step_def fun_eq_iff)

lemma byte_range_add:
  "byte_range m p (a + b) = byte_range m p a @ byte_range m (p + a) b"
proof -
  have "[p..<p + a + b] = [p..<p + a] @ [p + a..<p + a + b]"
    by (rule upt_add_eq_append) simp
  then show ?thesis
    by (simp add: byte_range_def add.assoc)
qed

lemma byte_range_fun_upd:
  "k < p \<or> p + n \<le> k \<Longrightarrow> byte_range (m(k := v)) p n = byte_range m p n"
  by (auto simp: byte_range_def)

lemma byte_range_Suc_end: "byte_range m p (Suc n) = byte_range m p n @ [m (p + n)]"
  by (simp add: byte_range_def)


text \<open>
  What \<open>sendConfigMessageUBLOX\<close> writes to the port is the well-formed frame of the
  class, id and payload found in the send buffer, as long as the length plus 4 fits
  the 8-bit count of \<open>_update_checksum\<close> (all commands of the driver are shorter).
\<close>

theorem sendConfigMessageUBLOX_wire_frame:
  assumes "unat (rd_u16 (send_buffer s) 4) + 4 < 256"
  shows "serial_tx (sendConfigMessageUBLOX s)
     = serial_tx s @ wire_frame (send_buffer s 2) (send_buffer s 3)
                      (byte_range (send_buffer s) 6 (unat (rd_u16 (send_buffer s) 4)))"
proof -
  let ?sb = "send_buffer s"
  let ?sb1 = "?sb(0 := PREAMBLE1, 1 := PREAMBLE2)"
  let ?len = "unat (rd_u16 ?sb 4)"
  let ?pl = "byte_range ?sb 6 ?len"
  have l1: "rd_u16 ?sb1 4 = rd_u16 ?sb 4"
    by (simp add: rd_u16_def)
  have len: "?len = unat (?sb 4) + 256 * unat (?sb 5)"
    by (simp add: rd_u16_def unat_payload_length)
  from assms len have u5: "unat (?sb 5) = 0" and u4: "?len = unat (?sb 4)"
    by arith+
  from u5 have hi: "?sb 5 = 0"
    by (simp add: unat_eq_0)
  from u4 have lo: "?sb 4 = of_nat ?len"
    by simp
  from assms have d: "?len div 256 = 0"
    by simp
  have g: "unat (of_nat n :: u8) = n" if "n < 256" for n
    using that by (simp add: unat_of_nat)
  have u: "unat (of_nat (?len + 4) :: u8) = ?len + 4"
    by (rule g) (rule assms)
  have body: "byte_range ?sb1 2 (?len + 4)
      = [?sb 2, ?sb 3, of_nat (length ?pl), of_nat (length ?pl div 256)] @ ?pl"
  proof -
    have "byte_range ?sb1 2 (4 + ?len) = byte_range ?sb1 2 4 @ byte_range ?sb1 (2 + 4) ?len"
      by (rule byte_range_add)
    moreover have "byte_range ?sb1 2 4 = [?sb 2, ?sb 3, ?sb 4, ?sb 5]"
      by (simp add: byte_range_def upt_rec)
    moreover have "byte_range ?sb1 (2 + 4) ?len = ?pl"
    proof -
      have "byte_range (?sb(0 := PREAMBLE1)) 6 ?len = byte_range ?sb 6 ?len"
        by (rule byte_range_fun_upd) simp
      moreover have "byte_range ?sb1 6 ?len = byte_range (?sb(0 := PREAMBLE1)) 6 ?len"
        by (rule byte_range_fun_upd) simp
      ultimately show ?thesis
        by simp
    qed
    ultimately show ?thesis
      using hi lo d by (simp add: length_byte_range add.commute)
  qed
  obtain a b where ck: "update_checksum ?sb1 2 (of_nat (?len + 4)) (0, 0) = (a, b)"
    by (cases "update_checksum ?sb1 2 (of_nat (?len + 4)) (0, 0)")
  have ab: "fold ck_step ([?sb 2, ?sb 3, of_nat (length ?pl), of_nat (length ?pl div 256)] @ ?pl) (0, 0)
      = (a, b)"
    using ck by (simp only: update_checksum_fold u body ck_step_eq)
  let ?sb3 = "?sb1(?len + 6 := a, ?len + 7 := b)"
  have out: "byte_range ?sb3 0 (?len + 8) = [PREAMBLE1, PREAMBLE2] @ byte_range ?sb1 2 (?len + 4) @ [a, b]"
  proof -
    have "byte_range ?sb3 0 (2 + ((?len + 4) + 2))
        = byte_range ?sb3 0 2 @ byte_range ?sb3 2 (?len + 4) @ byte_range ?sb3 (2 + (?len + 4)) 2"
      by (simp only: byte_range_add add_0)
    moreover have "byte_range ?sb3 0 2 = [PREAMBLE1, PREAMBLE2]"
      by (simp add: byte_range_def upt_rec)
    moreover have "byte_range ?sb3 2 (?len + 4) = byte_range ?sb1 2 (?len + 4)"
    proof -
      have "byte_range (?sb1(?len + 6 := a)) 2 (?len + 4) = byte_range ?sb1 2 (?len + 4)"
        by (rule byte_range_fun_upd) simp
      moreover have "byte_range ?sb3 2 (?len + 4) = byte_range (?sb1(?len + 6 := a)) 2 (?len + 4)"
        by (rule byte_range_fun_upd) simp
      ultimately show ?thesis
        by simp
    qed
    moreover have "byte_range ?sb3 (2 + (?len + 4)) 2 = [a, b]"
      by (simp add: byte_range_def upt_rec)
    moreover have "2 + ((?len + 4) + 2) = ?len + 8"
      by simp
    ultimately show ?thesis
      by metis
  qed
  have "serial_tx (sendConfigMessageUBLOX s) = serial_tx s @ byte_range ?sb3 0 (?len + 8)"
    unfolding sendConfigMessageUBLOX_def Let_def l1 ck prod.case by simp
  also have "\<dots> = serial_tx s @ wire_frame (?sb 2) (?sb 3) ?pl"
    by (simp only: out body wire_frame_def Let_def ab fst_conv snd_conv)
  finally show ?thesis .
qed


theorem sendConfigMessageUBLOX_wire_frame_example:
  "unat (rd_u16 ((\<lambda>i. 0)(2 := CLASS_CFG, 3 := 0x01, 4 := 3, 6 := 0xF0, 7 := 0x05)) 4) + 4 < 256
   \<and> serial_tx (sendConfigMessageUBLOX
        (ubx_zero\<lparr>send_buffer := (\<lambda>i. 0)(2 := CLASS_CFG, 3 := 0x01, 4 := 3, 6 := 0xF0, 7 := 0x05)\<rparr>))
       = [0xB5, 0x62, 0x06, 0x01, 0x03, 0x00, 0xF0, 0x05, 0x00, 0xFF, 0x19]"
proof -
  let ?sb = "(\<lambda>i. 0)(2 := CLASS_CFG, 3 := 0x01, 4 := 3, 6 := 0xF0, 7 := (0x05 :: u8))"
  let ?s = "ubx_zero\<lparr>send_buffer := ?sb\<rparr>"
  have r: "rd_u16 ?sb 4 = 3"
    by (simp add: rd_u16_def)
  have h: "unat (rd_u16 (send_buffer ?s) 4) + 4 < 256" "unat (rd_u16 ?sb 4) + 4 < 256"
    by (simp_all add: r)
  have p: "byte_range ?sb 6 3 = [0xF0, 0x05, 0x00]"
    by (simp add: byte_range_def upt_rec)
  have z: "serial_tx ?s = []" "send_buffer ?s = ?sb"
    by (simp_all add: ubx_zero_def)
  have w: "wire_frame CLASS_CFG 0x01 [0xF0, 0x05, 0x00]
      = [0xB5, 0x62, 0x06, 0x01, 0x03, 0x00, 0xF0, 0x05, 0x00, 0xFF, 0x19]"
    by (simp add: wire_frame_def ck_step_def ubx_protocol_bytes)
  have "serial_tx (sendConfigMessageUBLOX ?s)
      = serial_tx ?s @ wire_frame (send_buffer ?s 2) (send_buffer ?s 3)
          (byte_range (send_buffer ?s) 6 (unat (rd_u16 (send_buffer ?s) 4)))"
    by (rule sendConfigMessageUBLOX_wire_frame [OF h(1)])
  also have "\<dots> = [0xB5, 0x62, 0x06, 0x01, 0x03, 0x00, 0xF0, 0x05, 0x00, 0xFF, 0x19]"
    by (simp only: z r) (simp add: p w)
  finally show ?thesis
    using h(2) by simp
qed

end
